theory Spec2Isabelle
  imports Complex_Main
begin

section \<open>Documents of the two collections\<close>

text \<open>
  The server keeps two MongoDB collections that matter for the complaint lifecycle:
  \<^verbatim>\<open>complaints\<close> (models/Complaint.js) and \<^verbatim>\<open>categories\<close> (models/Category.js, with the
  subcategories embedded).  An ObjectId is a natural number, a Date is a natural number
  (milliseconds), a JavaScript Number holding a count is an integer.  Strings are kept as
  strings: the schema's \<^verbatim>\<open>enum\<close> lists are validators, not types, and
  \<^verbatim>\<open>findOneAndUpdate\<close> does not run them.  A character is a code unit below 256
  (U+0000 to U+00FF); text with other characters is outside the type.

  A collection is the list of its documents in insertion order; a query returns the
  first match.  A handler is a function from the collections to a response and the new
  collections, so requests are handled one at a time.  A reference that the source
  populates (\<^verbatim>\<open>populate('user', ...)\<close>) is kept as the id it holds.  A request reaches a
  handler with a principal the \<^verbatim>\<open>auth\<close> middleware has accepted and with ids that cast
  to ObjectIds; the users that complaints refer to are stored; database calls fail only
  through the validators and unique indexes written out below.  A stored complaint has a
  user, a category and a subcategory, and a stored path holds a value of its schema type
  (a JSON null, or a number that is not an integer, is outside the types).
\<close>

type_synonym oid = nat
type_synonym date = nat

record Comment =
  c_text :: string
  c_user :: oid
  c_createdAt :: date

record Resolution =
  r_text :: string
  r_date :: date
  r_by :: oid

record AiResponse =
  ai_category :: oid
  ai_suggestion :: string
  ai_confidence :: real

record EmailShare =
  es_to :: string
  es_date :: date

record SocialShare =
  ss_platform :: string
  ss_date :: date

record Complaint =
  cid :: oid
  user :: oid
  title :: string
  description :: string
  category :: oid
  subCategory :: oid
  status :: string
  priority :: string
  priorityValue :: int
  attachments :: "string list"
  aiResponse :: "AiResponse option"
  assignedTo :: "oid option"
  resolution :: "Resolution option"
  comments :: "Comment list"
  sharedOn_email :: "EmailShare list"
  sharedOn_social :: "SocialShare list"
  createdAt :: date
  updatedAt :: date

record SubCategory =
  sub_id :: oid
  sub_name :: string
  sub_icon :: string
  sub_description :: string
  sub_totalComplaints :: int
  sub_createdAt :: date
  sub_updatedAt :: date

record UserCount =
  uc_user :: oid
  uc_count :: int

text \<open>
  The category schema declares exactly these paths.  It declares no
  \<^verbatim>\<open>isFrequentlyUsed\<close> path (the Joi schema of validators/categoryValidator.js does).
\<close>

record Category =
  cat_id :: oid
  cat_name :: string
  cat_icon :: string
  cat_description :: string
  subCategories :: "SubCategory list"
  cat_totalComplaints :: int
  userCounts :: "UserCount list"
  cat_createdAt :: date
  cat_updatedAt :: date

text \<open>
  A hydrated category document: the schema paths, and the one own property the
  controller assigns outside the schema (\<open>None\<close> is JavaScript's \<^verbatim>\<open>undefined\<close>).
\<close>

record CategoryDocument =
  paths :: Category
  isFrequentlyUsed :: "bool option"

record db =
  complaints :: "Complaint list"
  categories :: "Category list"

text \<open>The authenticated principal \<^verbatim>\<open>req.user\<close>, as the auth middleware loads it.\<close>

record User =
  u_id :: oid
  role :: string
  isVerified :: bool
  email :: string
  u_name :: string

text \<open>
  What a request handler takes from outside the two collections: the clock, the
  ObjectId generated for a new document, whether nodemailer's \<^verbatim>\<open>sendMail\<close> resolves,
  cloudinary's upload (\<open>None\<close> when it throws), and the validator library's
  \<^verbatim>\<open>isEmail\<close> and \<^verbatim>\<open>normalizeEmail\<close>.
\<close>

record Env =
  now :: date
  new_id :: oid
  sendMail :: bool
  upload :: "string \<Rightarrow> string option"
  isEmail :: "string \<Rightarrow> bool"
  normalizeEmail :: "string \<Rightarrow> string"

datatype Body =
  ComplaintJson Complaint
  | CommentJson Comment
  | CategoryJson Category
  | Message string
  | ValidationErrors
  | ServerError
  | NoBody

datatype Err = ApiError nat string | MongooseValidationError | DuplicateKey

text \<open>
  A handler either sends a response (status code and body) or, in the category
  controller, passes an error to \<^verbatim>\<open>next\<close>.
\<close>

datatype Response = Res nat Body | Next Err

section \<open>Helpers: strings and arrays\<close>

text \<open>
  JavaScript's white space, as \<^verbatim>\<open>String.prototype.trim\<close> and the regular expression
  class \<^verbatim>\<open>\s\<close> have it (validator.js, Joi and mongoose all trim with one of the two):
  below U+0100 these are tab, line feed, vertical tab, form feed, carriage return, space
  and the no-break space U+00A0.
\<close>

definition is_space :: "char \<Rightarrow> bool" where
  "is_space c =
     (c \<in> set [CHR '' '', CHR 0x09, CHR 0x0A, CHR 0x0B, CHR 0x0C, CHR 0x0D, CHR 0xA0])"

definition trim :: "string \<Rightarrow> string" where
  "trim s = rev (dropWhile is_space (rev (dropWhile is_space s)))"

definition startsWith :: "string \<Rightarrow> string \<Rightarrow> bool" where
  "startsWith s p = (take (length p) s = p)"

text \<open>
  \<^verbatim>\<open>array.id(x)\<close> and \<^verbatim>\<open>array.find(p)\<close> give the first match, and an assignment
  to the element found changes that element only.
\<close>

fun update_first :: "('a \<Rightarrow> bool) \<Rightarrow> ('a \<Rightarrow> 'a) \<Rightarrow> 'a list \<Rightarrow> 'a list" where
  "update_first P f [] = []"
| "update_first P f (x # xs) = (if P x then f x # xs else x # update_first P f xs)"

fun remove_first :: "('a \<Rightarrow> bool) \<Rightarrow> 'a list \<Rightarrow> 'a list" where
  "remove_first P [] = []"
| "remove_first P (x # xs) = (if P x then xs else x # remove_first P xs)"

section \<open>models/Complaint.js and models/Category.js: the hooks\<close>

definition status_enum :: "string list" where
  "status_enum = [''pending'', ''in-progress'', ''resolved'', ''rejected'']"

definition priority_enum :: "string list" where
  "priority_enum = [''low'', ''medium'', ''high'']"

text \<open>\<^verbatim>\<open>complaintSchema.pre('save')\<close>: the timestamp and the switch on the priority string.\<close>

definition pre_save :: "date \<Rightarrow> Complaint \<Rightarrow> Complaint" where
  "pre_save t this =
     this\<lparr>updatedAt := t,
          priorityValue :=
            (if priority this = ''low'' then 0
             else if priority this = ''high'' then 2
             else 1)\<rparr>"

definition countDocuments :: "(Complaint \<Rightarrow> bool) \<Rightarrow> db \<Rightarrow> int" where
  "countDocuments q d = int (length (filter q (complaints d)))"

text \<open>\<^verbatim>\<open>categorySchema.methods.calculateTotalComplaints\<close>, with its guard on the array.\<close>

definition calculateTotalComplaints :: "Category \<Rightarrow> Category" where
  "calculateTotalComplaints this =
     (if subCategories this \<noteq> []
      then this\<lparr>cat_totalComplaints :=
             foldl (\<lambda>sum sub. sum + sub_totalComplaints sub) 0 (subCategories this)\<rparr>
      else this)"

text \<open>\<^verbatim>\<open>categorySchema.pre('save')\<close> and the write of the document under its \<^verbatim>\<open>_id\<close>.\<close>

definition pre_save_Category :: "date \<Rightarrow> Category \<Rightarrow> Category" where
  "pre_save_Category t this =
     this\<lparr>cat_updatedAt := t,
          subCategories := map (\<lambda>sub. sub\<lparr>sub_updatedAt := t\<rparr>) (subCategories this)\<rparr>"

definition save_Category :: "date \<Rightarrow> Category \<Rightarrow> db \<Rightarrow> db" where
  "save_Category t c d =
     d\<lparr>categories :=
         update_first (\<lambda>x. cat_id x = cat_id c) (\<lambda>_. pre_save_Category t c) (categories d)\<rparr>"

text \<open>
  Mongoose's validation of a category on save: the required strings and the icon's
  \<^verbatim>\<open>maxLength\<close>, for the category and for each embedded subcategory.  \<^verbatim>\<open>save()\<close>
  validates every path of the document, also of one loaded from the collection and
  changed on other paths only.
\<close>

definition validate_SubCategory :: "SubCategory \<Rightarrow> bool" where
  "validate_SubCategory s =
     (sub_name s \<noteq> [] \<and> sub_icon s \<noteq> [] \<and> length (sub_icon s) \<le> 5242880
      \<and> sub_description s \<noteq> [])"

definition validate_Category :: "Category \<Rightarrow> bool" where
  "validate_Category c =
     (cat_name c \<noteq> [] \<and> cat_icon c \<noteq> [] \<and> length (cat_icon c) \<le> 5242880
      \<and> cat_description c \<noteq> [] \<and> list_all validate_SubCategory (subCategories c))"

text \<open>
  \<^verbatim>\<open>complaintSchema.post('save')\<close>: runs after the complaint is stored, on every save
  (creation, comment, share, status change).  The subcategory's count is recounted from
  the collection; the user's entry is pushed with the literal count 1 when absent and
  recounted when present; the category's total is recomputed; the category is saved.

  The entry is looked up with \<^verbatim>\<open>uc.user.equals(this.user)\<close>.  When the route has loaded
  the complaint with \<^verbatim>\<open>populate('user', ...)\<close>, \<^verbatim>\<open>this.user\<close> is a user document, the
  comparison is false for every entry, and an entry is pushed even if the user has one:
  \<open>populated\<close> says so.  The result is \<open>None\<close> when \<^verbatim>\<open>category.save()\<close> throws (the
  stored category fails its validators); nothing is written then.
\<close>

definition post_save_hook :: "bool \<Rightarrow> date \<Rightarrow> Complaint \<Rightarrow> db \<Rightarrow> db option" where
  "post_save_hook populated t this d =
     (case find (\<lambda>c. cat_id c = category this) (categories d) of
        None \<Rightarrow> Some d
      | Some cat \<Rightarrow>
          let cat1 = cat\<lparr>subCategories :=
                 update_first (\<lambda>s. sub_id s = subCategory this)
                   (\<lambda>s. s\<lparr>sub_totalComplaints :=
                      countDocuments (\<lambda>x. category x = category this
                                          \<and> subCategory x = subCategory this) d\<rparr>)
                   (subCategories cat)\<rparr>;
              cat2 =
                (case (if populated then None
                       else find (\<lambda>uc. uc_user uc = user this) (userCounts cat1)) of
                   None \<Rightarrow>
                     cat1\<lparr>userCounts :=
                        userCounts cat1 @ [\<lparr>uc_user = user this, uc_count = 1\<rparr>]\<rparr>
                 | Some _ \<Rightarrow>
                     cat1\<lparr>userCounts :=
                        update_first (\<lambda>uc. uc_user uc = user this)
                          (\<lambda>uc. uc\<lparr>uc_count :=
                             countDocuments (\<lambda>x. category x = category this
                                                 \<and> user x = user this) d\<rparr>)
                          (userCounts cat1)\<rparr>);
              cat3 = calculateTotalComplaints cat2
          in if validate_Category cat3 then Some (save_Category t cat3 d) else None)"

text \<open>
  The collections after the hook has run for a complaint whose user is an ObjectId, as
  it is after a creation.
\<close>

definition post_save :: "date \<Rightarrow> Complaint \<Rightarrow> db \<Rightarrow> db" where
  "post_save t this d = (case post_save_hook False t this d of None \<Rightarrow> d | Some d' \<Rightarrow> d')"

text \<open>
  Mongoose's own validation of a complaint (required paths and the two enums); it runs
  before the \<^verbatim>\<open>pre('save')\<close> hook, on every \<^verbatim>\<open>save()\<close>, and on every path of the document.
\<close>

definition validate_Complaint :: "Complaint \<Rightarrow> bool" where
  "validate_Complaint c =
     (title c \<noteq> [] \<and> description c \<noteq> []
      \<and> status c \<in> set status_enum \<and> priority c \<in> set priority_enum)"

text \<open>
  \<^verbatim>\<open>complaint.save()\<close> of a new document and of a document loaded from the collection.
  The first component is \<open>None\<close> when \<^verbatim>\<open>save()\<close> throws, the second is what the
  collections hold then: a validation error or a duplicate \<^verbatim>\<open>_id\<close> writes nothing; an
  error of the post-save hook leaves the complaint written.
\<close>

definition save_new :: "date \<Rightarrow> Complaint \<Rightarrow> db \<Rightarrow> Complaint option \<times> db" where
  "save_new t c d =
     (if \<not> validate_Complaint c \<or> cid c \<in> set (map cid (complaints d)) then (None, d)
      else let c' = pre_save t c;
               d1 = d\<lparr>complaints := complaints d @ [c']\<rparr>
           in case post_save_hook False t c' d1 of
                None \<Rightarrow> (None, d1)
              | Some d2 \<Rightarrow> (Some c', d2))"

definition save_existing :: "bool \<Rightarrow> date \<Rightarrow> Complaint \<Rightarrow> db \<Rightarrow> Complaint option \<times> db" where
  "save_existing populated t c d =
     (if \<not> validate_Complaint c then (None, d)
      else let c' = pre_save t c;
               d1 = d\<lparr>complaints :=
                      update_first (\<lambda>x. cid x = cid c) (\<lambda>_. c') (complaints d)\<rparr>
           in case post_save_hook populated t c' d1 of
                None \<Rightarrow> (None, d1)
              | Some d2 \<Rightarrow> (Some c', d2))"

section \<open>routes/complaints.js\<close>

record CreateBody =
  b_title :: string
  b_description :: string
  b_category :: "oid option"
  b_subCategory :: "oid option"
  b_priority :: "string option"
  b_files :: "string list"

text \<open>The loop over \<^verbatim>\<open>req.files\<close>: the first upload that throws aborts the request.\<close>

fun upload_all :: "(string \<Rightarrow> string option) \<Rightarrow> string list \<Rightarrow> string list option" where
  "upload_all up [] = Some []"
| "upload_all up (f # fs) =
     (case up f of
        None \<Rightarrow> None
      | Some url \<Rightarrow>
          (case upload_all up fs of None \<Rightarrow> None | Some urls \<Rightarrow> Some (url # urls)))"

definition aiSuggestion :: string where
  "aiSuggestion = ''Can't provide suggestion as the developer was broke and not able to afford the key as he already have utilized the free credits on his other personal projects''"

text \<open>
  \<^verbatim>\<open>router.post('/')\<close>.  The middleware \<^verbatim>\<open>verifiedAuth\<close> answers 403 for an unverified
  principal; the validation chain trims title and description in the body.  A missing
  \<^verbatim>\<open>subCategory\<close> is a required path that \<^verbatim>\<open>save()\<close> rejects.  The notification is
  awaited inside the handler's single try block, after the save.
\<close>

definition create_complaint :: "Env \<Rightarrow> User \<Rightarrow> CreateBody \<Rightarrow> db \<Rightarrow> Response \<times> db" where
  "create_complaint env u b d =
     (if \<not> isVerified u then (Res 403 (Message ''Email verification required''), d)
      else case b_category b of
        None \<Rightarrow> (Res 400 ValidationErrors, d)
      | Some cat \<Rightarrow>
          if length (trim (b_title b)) < 5 \<or> length (trim (b_description b)) < 10
          then (Res 400 ValidationErrors, d)
          else (case upload_all (upload env) (b_files b) of
            None \<Rightarrow> (Res 500 ServerError, d)
          | Some urls \<Rightarrow>
              (case b_subCategory b of
                 None \<Rightarrow> (Res 500 ServerError, d)
               | Some sub \<Rightarrow>
                   let complaint =
                     \<lparr>cid = new_id env, user = u_id u,
                      title = trim (b_title b), description = trim (b_description b),
                      category = cat, subCategory = sub,
                      status = ''pending'',
                      priority = (case b_priority b of
                                    None \<Rightarrow> ''medium''
                                  | Some p \<Rightarrow> if p = [] then ''medium'' else p),
                      priorityValue = 1,
                      attachments = urls,
                      aiResponse = Some \<lparr>ai_category = cat, ai_suggestion = aiSuggestion,
                                          ai_confidence = 9 / 10\<rparr>,
                      assignedTo = None, resolution = None, comments = [],
                      sharedOn_email = [], sharedOn_social = [],
                      createdAt = now env, updatedAt = now env\<rparr>
                   in (case save_new (now env) complaint d of
                         (None, d') \<Rightarrow> (Res 500 ServerError, d')
                       | (Some saved, d') \<Rightarrow>
                           if sendMail env then (Res 201 (ComplaintJson saved), d')
                           else (Res 500 ServerError, d')))))"

text \<open>
  The body of \<^verbatim>\<open>router.put('/:id')\<close> is a JSON object; each key that is a path of the
  complaint schema is one \<open>Field\<close>, a key outside the schema is \<open>Set_other\<close> (strict mode
  drops it).  The key \<^verbatim>\<open>_id\<close> is left out of the model, and so are values that are not
  of the path's type: a JSON null, a number that is not an integer.
\<close>

datatype Field =
  Set_title string
  | Set_description string
  | Set_category oid
  | Set_priority string
  | Set_subCategory oid
  | Set_status string
  | Set_priorityValue int
  | Set_user oid
  | Set_attachments "string list"
  | Set_aiResponse AiResponse
  | Set_assignedTo oid
  | Set_resolution Resolution
  | Set_comments "Comment list"
  | Set_sharedOn "EmailShare list" "SocialShare list"
  | Set_createdAt date
  | Set_updatedAt date
  | Set_other string

text \<open>The four optional validators of the route, and their trim sanitizers.\<close>

fun field_valid :: "Field \<Rightarrow> bool" where
  "field_valid (Set_title s) = (trim s \<noteq> [])"
| "field_valid (Set_description s) = (trim s \<noteq> [])"
| "field_valid (Set_priority p) = (p \<in> set priority_enum)"
| "field_valid _ = True"

fun sanitize :: "Field \<Rightarrow> Field" where
  "sanitize (Set_title s) = Set_title (trim s)"
| "sanitize (Set_description s) = Set_description (trim s)"
| "sanitize f = f"

fun apply_set :: "Field \<Rightarrow> Complaint \<Rightarrow> Complaint" where
  "apply_set (Set_title s) c = c\<lparr>title := s\<rparr>"
| "apply_set (Set_description s) c = c\<lparr>description := s\<rparr>"
| "apply_set (Set_category x) c = c\<lparr>category := x\<rparr>"
| "apply_set (Set_priority p) c = c\<lparr>priority := p\<rparr>"
| "apply_set (Set_subCategory x) c = c\<lparr>subCategory := x\<rparr>"
| "apply_set (Set_status s) c = c\<lparr>status := s\<rparr>"
| "apply_set (Set_priorityValue n) c = c\<lparr>priorityValue := n\<rparr>"
| "apply_set (Set_user x) c = c\<lparr>user := x\<rparr>"
| "apply_set (Set_attachments xs) c = c\<lparr>attachments := xs\<rparr>"
| "apply_set (Set_aiResponse a) c = c\<lparr>aiResponse := Some a\<rparr>"
| "apply_set (Set_assignedTo x) c = c\<lparr>assignedTo := Some x\<rparr>"
| "apply_set (Set_resolution r) c = c\<lparr>resolution := Some r\<rparr>"
| "apply_set (Set_comments xs) c = c\<lparr>comments := xs\<rparr>"
| "apply_set (Set_sharedOn es ss) c = c\<lparr>sharedOn_email := es, sharedOn_social := ss\<rparr>"
| "apply_set (Set_createdAt t) c = c\<lparr>createdAt := t\<rparr>"
| "apply_set (Set_updatedAt t) c = c\<lparr>updatedAt := t\<rparr>"
| "apply_set (Set_other k) c = c"

text \<open>
  \<^verbatim>\<open>router.put('/:id')\<close>: \<^verbatim>\<open>findOneAndUpdate({_id, user}, {$set: req.body}, {new: true})\<close>
  writes the document directly; no validator of the schema and no save hook runs.  The
  status e-mail is awaited after the write.  Its recipient is \<^verbatim>\<open>complaint.user.email\<close>,
  read from a user reference that this route does not populate: the mail has no
  recipient, \<^verbatim>\<open>sendMail\<close> rejects, and the handler's catch answers 500 with the write
  done.
\<close>

definition update_complaint :: "Env \<Rightarrow> User \<Rightarrow> oid \<Rightarrow> Field list \<Rightarrow> db \<Rightarrow> Response \<times> db" where
  "update_complaint env u i body d =
     (if \<not> list_all field_valid body then (Res 400 ValidationErrors, d)
      else case find (\<lambda>c. cid c = i \<and> user c = u_id u) (complaints d) of
        None \<Rightarrow> (Res 404 (Message ''Complaint not found''), d)
      | Some c \<Rightarrow>
          let complaint = fold apply_set (map sanitize body) c;
              d' = d\<lparr>complaints :=
                     update_first (\<lambda>c. cid c = i \<and> user c = u_id u) (\<lambda>_. complaint)
                       (complaints d)\<rparr>
          in (Res 500 ServerError, d'))"

text \<open>\<^verbatim>\<open>router.delete('/:id')\<close>: \<^verbatim>\<open>findOneAndDelete({_id, user})\<close> and nothing else.\<close>

definition delete_complaint :: "User \<Rightarrow> oid \<Rightarrow> db \<Rightarrow> Response \<times> db" where
  "delete_complaint u i d =
     (case find (\<lambda>c. cid c = i \<and> user c = u_id u) (complaints d) of
        None \<Rightarrow> (Res 404 (Message ''Complaint not found''), d)
      | Some c \<Rightarrow>
          (Res 200 (Message ''Complaint deleted successfully''),
           d\<lparr>complaints :=
               remove_first (\<lambda>c. cid c = i \<and> user c = u_id u) (complaints d)\<rparr>))"

text \<open>
  \<^verbatim>\<open>router.post('/:id/comments')\<close>.  The complaint is found under the caller's own id, so
  the branch that mails the owner about someone else's comment is never taken.  The
  complaint is loaded with its user populated.
\<close>

definition add_comment :: "Env \<Rightarrow> User \<Rightarrow> oid \<Rightarrow> string \<Rightarrow> db \<Rightarrow> Response \<times> db" where
  "add_comment env u i txt d =
     (if trim txt = [] then (Res 400 ValidationErrors, d)
      else case find (\<lambda>c. cid c = i \<and> user c = u_id u) (complaints d) of
        None \<Rightarrow> (Res 404 (Message ''Complaint not found''), d)
      | Some c \<Rightarrow>
          let comment = \<lparr>c_text = trim txt, c_user = u_id u, c_createdAt = now env\<rparr>
          in (case save_existing True (now env) (c\<lparr>comments := comments c @ [comment]\<rparr>) d of
                (None, d') \<Rightarrow> (Res 500 ServerError, d')
              | (Some saved, d') \<Rightarrow> (Res 200 (CommentJson comment), d')))"

text \<open>
  \<^verbatim>\<open>router.post('/:id/share/email')\<close>: the complaint is looked up by id alone, with its
  user populated; the mail is sent before the share history is written.
\<close>

definition share_email :: "Env \<Rightarrow> User \<Rightarrow> oid \<Rightarrow> string \<Rightarrow> db \<Rightarrow> Response \<times> db" where
  "share_email env u i em d =
     (if \<not> isEmail env em then (Res 400 ValidationErrors, d)
      else case find (\<lambda>c. cid c = i) (complaints d) of
        None \<Rightarrow> (Res 404 (Message ''Complaint not found''), d)
      | Some c \<Rightarrow>
          if \<not> sendMail env then (Res 500 ServerError, d)
          else
            let entry = \<lparr>es_to = normalizeEmail env em, es_date = now env\<rparr>
            in (case save_existing True (now env)
                       (c\<lparr>sharedOn_email := sharedOn_email c @ [entry]\<rparr>) d of
                  (None, d') \<Rightarrow> (Res 500 ServerError, d')
                | (Some saved, d') \<Rightarrow>
                    (Res 200 (Message ''Complaint shared successfully''), d')))"

text \<open>\<^verbatim>\<open>router.post('/:id/share/social')\<close>: looked up by id and owner.\<close>

definition share_social :: "Env \<Rightarrow> User \<Rightarrow> oid \<Rightarrow> string \<Rightarrow> db \<Rightarrow> Response \<times> db" where
  "share_social env u i platform d =
     (if platform \<notin> set [''twitter'', ''facebook'', ''linkedin''] then (Res 400 ValidationErrors, d)
      else case find (\<lambda>c. cid c = i \<and> user c = u_id u) (complaints d) of
        None \<Rightarrow> (Res 404 (Message ''Complaint not found''), d)
      | Some c \<Rightarrow>
          let entry = \<lparr>ss_platform = platform, ss_date = now env\<rparr>
          in (case save_existing False (now env)
                     (c\<lparr>sharedOn_social := sharedOn_social c @ [entry]\<rparr>) d of
                (None, d') \<Rightarrow> (Res 500 ServerError, d')
              | (Some saved, d') \<Rightarrow>
                  (Res 200 (Message ''Complaint shared on social media successfully''), d')))"

text \<open>
  \<^verbatim>\<open>router.patch('/:id/status')\<close>: validation, lookup by id, the role check, then the
  assignment of the requested status whatever the current one is, the save, and the
  status e-mail to the complaint's user (loaded again, populated).
\<close>

definition patch_status ::
  "Env \<Rightarrow> User \<Rightarrow> oid \<Rightarrow> string \<Rightarrow> string option \<Rightarrow> db \<Rightarrow> Response \<times> db" where
  "patch_status env u i st res d =
     (if st \<notin> set status_enum \<or> (case res of None \<Rightarrow> False | Some r \<Rightarrow> trim r = [])
      then (Res 400 ValidationErrors, d)
      else case find (\<lambda>c. cid c = i) (complaints d) of
        None \<Rightarrow> (Res 404 (Message ''Complaint not found''), d)
      | Some c \<Rightarrow>
          if role u \<noteq> ''admin''
          then (Res 403 (Message ''Not authorized to update complaint status''), d)
          else
            let c1 = c\<lparr>status := st\<rparr>;
                c2 = (case res of
                        None \<Rightarrow> c1
                      | Some r \<Rightarrow>
                          c1\<lparr>resolution :=
                               Some \<lparr>r_text = trim r, r_date = now env, r_by = u_id u\<rparr>\<rparr>)
            in (case save_existing False (now env) c2 d of
                  (None, d') \<Rightarrow> (Res 500 ServerError, d')
                | (Some saved, d') \<Rightarrow>
                    if sendMail env then (Res 200 (ComplaintJson saved), d')
                    else (Res 500 ServerError, d')))"

section \<open>validators/categoryValidator.js\<close>

text \<open>
  A Joi string with \<^verbatim>\<open>required().min(lo).max(hi).trim()\<close>: the value is trimmed, then
  checked for emptiness and length; the result is the message of the first rule that
  fails, \<open>None\<close> when none does.  The icon must match
  \<^verbatim>\<open>/^data:image\/[a-zA-Z+]+;base64,/\<close>.  The object's keys are checked in the schema's
  order (name, icon, description), and the controller reads the first message,
  \<^verbatim>\<open>error.details[0].message\<close>.  A name or description that is missing from the body is
  outside the body type; a missing icon is \<open>None\<close>.
\<close>

definition joi_string ::
  "string \<Rightarrow> string \<Rightarrow> string \<Rightarrow> nat \<Rightarrow> nat \<Rightarrow> string \<Rightarrow> string option" where
  "joi_string empty_msg min_msg max_msg lo hi s =
     (if trim s = [] then Some empty_msg
      else if length (trim s) < lo then Some min_msg
      else if hi < length (trim s) then Some max_msg
      else None)"

definition is_alpha_plus :: "char \<Rightarrow> bool" where
  "is_alpha_plus c =
     (let n = (of_char c :: nat)
      in (65 \<le> n \<and> n \<le> 90) \<or> (97 \<le> n \<and> n \<le> 122) \<or> n = 43)"

definition icon_pattern :: "string \<Rightarrow> bool" where
  "icon_pattern s =
     (startsWith s ''data:image/''
      \<and> takeWhile is_alpha_plus (drop 11 s) \<noteq> []
      \<and> startsWith (dropWhile is_alpha_plus (drop 11 s)) '';base64,'')"

definition joi_icon :: "string option \<Rightarrow> string option" where
  "joi_icon icon =
     (case icon of
        None \<Rightarrow> Some (CHR 0x22 # ''icon'' @ CHR 0x22 # '' is required'')
      | Some v \<Rightarrow>
          if v = [] then Some ''Category icon is required''
          else if \<not> icon_pattern v
          then Some ''Invalid image format. Must be a base64 encoded image''
          else None)"

definition first_error :: "string option list \<Rightarrow> string option" where
  "first_error es = (case filter (\<lambda>e. e \<noteq> None) es of [] \<Rightarrow> None | e # _ \<Rightarrow> e)"

definition validateCategory :: "string \<Rightarrow> string \<Rightarrow> string option \<Rightarrow> string option" where
  "validateCategory name descr icon =
     first_error
       [joi_string ''Category name is required''
          ''Category name must be at least 2 characters long''
          ''Category name cannot exceed 50 characters'' 2 50 name,
        joi_icon icon,
        joi_string ''Category description is required''
          ''Category description must be at least 10 characters long''
          ''Category description cannot exceed 500 characters'' 10 500 descr]"

definition validateSubCategory :: "string \<Rightarrow> string \<Rightarrow> string option" where
  "validateSubCategory name descr =
     first_error
       [joi_string ''Subcategory name is required''
          ''Subcategory name must be at least 2 characters long''
          ''Subcategory name cannot exceed 50 characters'' 2 50 name,
        joi_string ''Subcategory description is required''
          ''Subcategory description must be at least 10 characters long''
          ''Subcategory description cannot exceed 500 characters'' 10 500 descr]"

section \<open>The category controller\<close>

text \<open>
  The handlers of the controller.  \<^verbatim>\<open>Category.findOne({ name })\<close> casts its filter with
  the schema, which trims the name; \<^verbatim>\<open>subCategories.find(sub => sub.name === name)\<close> is
  a plain array search and does not.  Every \<^verbatim>\<open>category.save()\<close> validates the document.
\<close>

record CategoryBody =
  cb_name :: string
  cb_description :: string
  cb_icon :: "string option"

definition createCategory :: "Env \<Rightarrow> CategoryBody \<Rightarrow> db \<Rightarrow> Response \<times> db" where
  "createCategory env b d =
     (let icon = (case cb_icon b of None \<Rightarrow> [] | Some i \<Rightarrow> i)
      in case validateCategory (cb_name b) (cb_description b) (cb_icon b) of
           Some message \<Rightarrow> (Next (ApiError 400 message), d)
         | None \<Rightarrow>
         if icon = [] \<or> \<not> startsWith icon ''data:image/''
         then (Next (ApiError 400 ''Invalid image format. Must be a base64 encoded image''), d)
         else if find (\<lambda>c. cat_name c = trim (cb_name b)) (categories d) \<noteq> None
         then (Next (ApiError 400 ''Category already exists''), d)
         else
           let categoryDoc =
                 \<lparr>cat_id = new_id env, cat_name = trim (cb_name b), cat_icon = icon,
                  cat_description = trim (cb_description b), subCategories = [],
                  cat_totalComplaints = 0, userCounts = [],
                  cat_createdAt = now env, cat_updatedAt = now env\<rparr>
           in if \<not> validate_Category categoryDoc then (Next MongooseValidationError, d)
              else if cat_id categoryDoc \<in> set (map cat_id (categories d))
                      \<or> cat_name categoryDoc \<in> set (map cat_name (categories d))
              then (Next DuplicateKey, d)
              else (Res 201 (CategoryJson (pre_save_Category (now env) categoryDoc)),
                    d\<lparr>categories :=
                        categories d @ [pre_save_Category (now env) categoryDoc]\<rparr>))"

definition addSubCategory :: "Env \<Rightarrow> oid \<Rightarrow> CategoryBody \<Rightarrow> db \<Rightarrow> Response \<times> db" where
  "addSubCategory env i b d =
     (let icon = (case cb_icon b of None \<Rightarrow> [] | Some x \<Rightarrow> x)
      in if icon = [] then (Next (ApiError 400 ''Subcategory icon is required''), d)
         else if \<not> startsWith icon ''data:image/''
         then (Next (ApiError 400 ''Invalid image format''), d)
         else case validateSubCategory (cb_name b) (cb_description b) of
           Some message \<Rightarrow> (Next (ApiError 400 message), d)
         | None \<Rightarrow>
         (case find (\<lambda>c. cat_id c = i) (categories d) of
           None \<Rightarrow> (Next (ApiError 404 ''Category not found''), d)
         | Some categoryDoc \<Rightarrow>
             if find (\<lambda>sub. sub_name sub = cb_name b) (subCategories categoryDoc) \<noteq> None
             then (Next (ApiError 400 ''Subcategory already exists in this category''), d)
             else
               let sub = \<lparr>sub_id = new_id env, sub_name = trim (cb_name b), sub_icon = icon,
                          sub_description = trim (cb_description b),
                          sub_totalComplaints = 0,
                          sub_createdAt = now env, sub_updatedAt = now env\<rparr>;
                   categoryDoc' = categoryDoc\<lparr>subCategories := subCategories categoryDoc @ [sub]\<rparr>
               in if \<not> validate_Category categoryDoc' then (Next MongooseValidationError, d)
                  else (Res 201 (CategoryJson (pre_save_Category (now env) categoryDoc')),
                        save_Category (now env) categoryDoc' d)))"

definition updateCategory :: "Env \<Rightarrow> oid \<Rightarrow> CategoryBody \<Rightarrow> db \<Rightarrow> Response \<times> db" where
  "updateCategory env i b d =
     (case find (\<lambda>c. cat_id c = i) (categories d) of
        None \<Rightarrow> (Next (ApiError 404 ''Category not found''), d)
      | Some categoryDoc \<Rightarrow>
          if cb_name b \<noteq> cat_name categoryDoc
             \<and> find (\<lambda>c. cat_name c = trim (cb_name b)) (categories d) \<noteq> None
          then (Next (ApiError 400 ''Category name already exists''), d)
          else
            let icon = (case cb_icon b of None \<Rightarrow> [] | Some x \<Rightarrow> x)
            in if icon \<noteq> [] \<and> \<not> startsWith icon ''data:image/''
               then (Next (ApiError 400 ''Invalid image format''), d)
               else case validateCategory (cb_name b) (cb_description b)
                           (Some (if icon \<noteq> [] then icon else cat_icon categoryDoc)) of
                 Some message \<Rightarrow> (Next (ApiError 400 message), d)
               | None \<Rightarrow>
                 let categoryDoc' =
                       categoryDoc\<lparr>cat_name := trim (cb_name b),
                                cat_description := trim (cb_description b),
                                cat_icon := (if icon \<noteq> [] then icon else cat_icon categoryDoc)\<rparr>
                 in if \<not> validate_Category categoryDoc' then (Next MongooseValidationError, d)
                    else if cat_name categoryDoc' \<in>
                              set (map cat_name (filter (\<lambda>c. cat_id c \<noteq> i) (categories d)))
                    then (Next DuplicateKey, d)
                    else (Res 200 (CategoryJson (pre_save_Category (now env) categoryDoc')),
                          save_Category (now env) categoryDoc' d))"

definition updateSubCategory ::
  "Env \<Rightarrow> oid \<Rightarrow> oid \<Rightarrow> CategoryBody \<Rightarrow> db \<Rightarrow> Response \<times> db" where
  "updateSubCategory env i j b d =
     (case find (\<lambda>c. cat_id c = i) (categories d) of
        None \<Rightarrow> (Next (ApiError 404 ''Category not found''), d)
      | Some categoryDoc \<Rightarrow>
          (case find (\<lambda>s. sub_id s = j) (subCategories categoryDoc) of
             None \<Rightarrow> (Next (ApiError 404 ''Subcategory not found''), d)
           | Some subDoc \<Rightarrow>
               let icon = (case cb_icon b of None \<Rightarrow> [] | Some x \<Rightarrow> x)
               in if icon \<noteq> [] \<and> \<not> startsWith icon ''data:image/''
                  then (Next (ApiError 400 ''Invalid image format''), d)
                  else case validateSubCategory (cb_name b) (cb_description b) of
                    Some message \<Rightarrow> (Next (ApiError 400 message), d)
                  | None \<Rightarrow>
                    let categoryDoc' =
                          categoryDoc\<lparr>subCategories :=
                            update_first (\<lambda>s. sub_id s = j)
                              (\<lambda>s. s\<lparr>sub_name := trim (cb_name b),
                                     sub_description := trim (cb_description b),
                                     sub_icon := (if icon \<noteq> [] then icon else sub_icon s)\<rparr>)
                              (subCategories categoryDoc)\<rparr>
                    in if \<not> validate_Category categoryDoc' then (Next MongooseValidationError, d)
                       else (Res 200 (CategoryJson (pre_save_Category (now env) categoryDoc')),
                             save_Category (now env) categoryDoc' d)))"

text \<open>
  The two deletions: refused with status 400 while the stored counter is positive;
  otherwise the category is deleted, or the subcategory pulled and the category saved
  (which validates it).
\<close>

definition deleteCategory :: "oid \<Rightarrow> db \<Rightarrow> Response \<times> db" where
  "deleteCategory i d =
     (case find (\<lambda>c. cat_id c = i) (categories d) of
        None \<Rightarrow> (Next (ApiError 404 ''Category not found''), d)
      | Some categoryDoc \<Rightarrow>
          if cat_totalComplaints categoryDoc > 0
          then (Next (ApiError 400 ''Cannot delete category with existing complaints''), d)
          else (Res 204 NoBody,
                d\<lparr>categories := remove_first (\<lambda>c. cat_id c = i) (categories d)\<rparr>))"

definition deleteSubCategory :: "Env \<Rightarrow> oid \<Rightarrow> oid \<Rightarrow> db \<Rightarrow> Response \<times> db" where
  "deleteSubCategory env i j d =
     (case find (\<lambda>c. cat_id c = i) (categories d) of
        None \<Rightarrow> (Next (ApiError 404 ''Category not found''), d)
      | Some categoryDoc \<Rightarrow>
          (case find (\<lambda>s. sub_id s = j) (subCategories categoryDoc) of
             None \<Rightarrow> (Next (ApiError 404 ''Subcategory not found''), d)
           | Some subDoc \<Rightarrow>
               if sub_totalComplaints subDoc > 0
               then (Next (ApiError 400 ''Cannot delete subcategory with existing complaints''), d)
               else
                 let categoryDoc' =
                       categoryDoc\<lparr>subCategories :=
                         filter (\<lambda>s. sub_id s \<noteq> j) (subCategories categoryDoc)\<rparr>
                 in if \<not> validate_Category categoryDoc' then (Next MongooseValidationError, d)
                    else (Res 204 NoBody, save_Category (now env) categoryDoc' d)))"

text \<open>
  \<^verbatim>\<open>toggleFrequentStatus\<close>.  \<^verbatim>\<open>Category.findById\<close> hydrates the schema paths; the property
  \<^verbatim>\<open>isFrequentlyUsed\<close> is not one of them, so it reads as undefined, the negation of a
  falsy value is true, and the assignment creates an own property of the document
  object.  \<^verbatim>\<open>save()\<close> validates and writes schema paths only, and the JSON of the
  response holds schema paths only.
\<close>

definition hydrate :: "Category \<Rightarrow> CategoryDocument" where
  "hydrate c = \<lparr>paths = c, isFrequentlyUsed = None\<rparr>"

definition truthy :: "bool option \<Rightarrow> bool" where
  "truthy v = (case v of None \<Rightarrow> False | Some b \<Rightarrow> b)"

definition toggle_document :: "CategoryDocument \<Rightarrow> CategoryDocument" where
  "toggle_document categoryDoc =
     categoryDoc\<lparr>isFrequentlyUsed := Some (\<not> truthy (isFrequentlyUsed categoryDoc))\<rparr>"

definition toggleFrequentStatus :: "Env \<Rightarrow> oid \<Rightarrow> db \<Rightarrow> Response \<times> db" where
  "toggleFrequentStatus env i d =
     (case find (\<lambda>c. cat_id c = i) (categories d) of
        None \<Rightarrow> (Next (ApiError 404 ''Category not found''), d)
      | Some c \<Rightarrow>
          let categoryDoc = toggle_document (hydrate c)
          in if \<not> validate_Category (paths categoryDoc) then (Next MongooseValidationError, d)
             else (Res 200 (CategoryJson (pre_save_Category (now env) (paths categoryDoc))),
                   save_Category (now env) (paths categoryDoc) d))"

section \<open>The requests the server handles\<close>

text \<open>
  Every operation that writes to one of the two collections.  Requests are handled one
  at a time.  The category routes sit behind \<^verbatim>\<open>adminAuth\<close> (routes/categories.js);
  \<^verbatim>\<open>toggleFrequentStatus\<close> is exported by the controller and has no route, and is kept
  here as an operation of its own.
\<close>

datatype Request =
  CreateComplaint CreateBody
  | UpdateComplaint oid "Field list"
  | DeleteComplaint oid
  | AddComment oid string
  | ShareEmail oid string
  | ShareSocial oid string
  | PatchStatus oid string "string option"
  | CreateCategory CategoryBody
  | AddSubCategory oid CategoryBody
  | UpdateCategory oid CategoryBody
  | UpdateSubCategory oid oid CategoryBody
  | DeleteCategory oid
  | DeleteSubCategory oid oid
  | ToggleFrequentStatus oid

definition adminAuth :: "User \<Rightarrow> (Response \<times> db) \<Rightarrow> db \<Rightarrow> Response \<times> db" where
  "adminAuth u handler d =
     (if role u \<noteq> ''admin'' then (Res 403 (Message ''Admin access required''), d)
      else handler)"

fun handle :: "Env \<Rightarrow> User \<Rightarrow> Request \<Rightarrow> db \<Rightarrow> Response \<times> db" where
  "handle env u (CreateComplaint b) d = create_complaint env u b d"
| "handle env u (UpdateComplaint i body) d = update_complaint env u i body d"
| "handle env u (DeleteComplaint i) d = delete_complaint u i d"
| "handle env u (AddComment i txt) d = add_comment env u i txt d"
| "handle env u (ShareEmail i em) d = share_email env u i em d"
| "handle env u (ShareSocial i p) d = share_social env u i p d"
| "handle env u (PatchStatus i st res) d = patch_status env u i st res d"
| "handle env u (CreateCategory b) d = adminAuth u (createCategory env b d) d"
| "handle env u (AddSubCategory i b) d = adminAuth u (addSubCategory env i b d) d"
| "handle env u (UpdateCategory i b) d = adminAuth u (updateCategory env i b d) d"
| "handle env u (UpdateSubCategory i j b) d = adminAuth u (updateSubCategory env i j b d) d"
| "handle env u (DeleteCategory i) d = adminAuth u (deleteCategory i d) d"
| "handle env u (DeleteSubCategory i j) d = adminAuth u (deleteSubCategory env i j d) d"
| "handle env u (ToggleFrequentStatus i) d = toggleFrequentStatus env i d"

text \<open>
  The states of the two collections that the server can reach from empty ones.  The
  ObjectId a request generates is new: no complaint, category or subcategory has it.
\<close>

definition fresh_id :: "oid \<Rightarrow> db \<Rightarrow> bool" where
  "fresh_id i d =
     (i \<notin> set (map cid (complaints d))
      \<and> i \<notin> set (map cat_id (categories d))
      \<and> i \<notin> set (concat (map (\<lambda>c. map sub_id (subCategories c)) (categories d))))"

inductive reachable :: "db \<Rightarrow> bool" where
  init: "reachable \<lparr>complaints = [], categories = []\<rparr>"
| step: "reachable d \<Longrightarrow> fresh_id (new_id env) d \<Longrightarrow> reachable (snd (handle env u r d))"

text \<open>Running a list of requests, each with its environment and principal.\<close>

fun run :: "(Env \<times> User \<times> Request) list \<Rightarrow> db \<Rightarrow> db" where
  "run [] d = d"
| "run ((env, u, r) # rs) d = run rs (snd (handle env u r d))"

section \<open>Ground truth and the stored counters\<close>

definition sub_count :: "oid \<Rightarrow> oid \<Rightarrow> db \<Rightarrow> int option" where
  "sub_count i j d =
     (case find (\<lambda>c. cat_id c = i) (categories d) of
        None \<Rightarrow> None
      | Some c \<Rightarrow> map_option sub_totalComplaints (find (\<lambda>s. sub_id s = j) (subCategories c)))"

definition user_count :: "oid \<Rightarrow> oid \<Rightarrow> db \<Rightarrow> int option" where
  "user_count i usr d =
     (case find (\<lambda>c. cat_id c = i) (categories d) of
        None \<Rightarrow> None
      | Some c \<Rightarrow> map_option uc_count (find (\<lambda>uc. uc_user uc = usr) (userCounts c)))"

definition total_is_sum :: "Category \<Rightarrow> bool" where
  "total_is_sum c = (cat_totalComplaints c = sum_list (map sub_totalComplaints (subCategories c)))"

definition counts_nonneg :: "Category \<Rightarrow> bool" where
  "counts_nonneg c = list_all (\<lambda>s. 0 \<le> sub_totalComplaints s) (subCategories c)"

text \<open>
  What every stored category satisfies in a reachable state: the total is the sum of the
  subcategories' counters, no counter is negative, and the subcategories have distinct
  ids.
\<close>

definition good :: "Category \<Rightarrow> bool" where
  "good c = (total_is_sum c \<and> counts_nonneg c \<and> distinct (map sub_id (subCategories c)))"


definition pair_count :: "oid \<Rightarrow> oid \<Rightarrow> db \<Rightarrow> int" where
  "pair_count i j d = countDocuments (\<lambda>x. category x = i \<and> subCategory x = j) d"

definition filer_count :: "oid \<Rightarrow> oid \<Rightarrow> db \<Rightarrow> int" where
  "filer_count i usr d = countDocuments (\<lambda>x. category x = i \<and> user x = usr) d"

definition code_of :: "Response \<Rightarrow> nat" where
  "code_of r = (case r of Res n _ \<Rightarrow> n | Next (ApiError n _) \<Rightarrow> n | Next _ \<Rightarrow> 500)"

text \<open>Whether each request of a run generates an ObjectId that is new at that point.\<close>

fun fresh_run :: "(Env \<times> User \<times> Request) list \<Rightarrow> db \<Rightarrow> bool" where
  "fresh_run [] d = True"
| "fresh_run ((env, u, r) # rs) d =
     (fresh_id (new_id env) d \<and> fresh_run rs (snd (handle env u r d)))"

section \<open>Concrete principals, requests and a small taxonomy\<close>

definition env_at :: "date \<Rightarrow> oid \<Rightarrow> Env" where
  "env_at t i = \<lparr>now = t, new_id = i, sendMail = True, upload = (\<lambda>f. Some f),
              isEmail = (\<lambda>_. True), normalizeEmail = (\<lambda>s. s)\<rparr>"

definition env_mail_down :: "date \<Rightarrow> oid \<Rightarrow> Env" where
  "env_mail_down t i = (env_at t i)\<lparr>sendMail := False\<rparr>"

definition admin :: User where
  "admin = \<lparr>u_id = 1, role = ''admin'', isVerified = True,
            email = ''root@example.org'', u_name = ''Root''\<rparr>"

definition alice :: User where
  "alice = \<lparr>u_id = 2, role = ''user'', isVerified = True,
            email = ''a@example.org'', u_name = ''A''\<rparr>"

definition bob :: User where
  "bob = \<lparr>u_id = 3, role = ''user'', isVerified = True,
          email = ''b@example.org'', u_name = ''B''\<rparr>"

definition billing :: CategoryBody where
  "billing = \<lparr>cb_name = ''Billing'', cb_description = ''Billing issues'',
              cb_icon = Some ''data:image/png;base64,AA''\<rparr>"

definition refund :: CategoryBody where
  "refund = \<lparr>cb_name = ''Refund'', cb_description = ''Refund requests'',
             cb_icon = Some ''data:image/png;base64,AA''\<rparr>"

definition shipping :: CategoryBody where
  "shipping = \<lparr>cb_name = ''Shipping'', cb_description = ''Shipping issues'',
               cb_icon = Some ''data:image/png;base64,AA''\<rparr>"

definition delay :: CategoryBody where
  "delay = \<lparr>cb_name = ''Delay'', cb_description = ''Late deliveries'',
            cb_icon = Some ''data:image/png;base64,AA''\<rparr>"

definition filing :: "oid \<Rightarrow> oid \<Rightarrow> CreateBody" where
  "filing i j = \<lparr>b_title = ''Wrong charge'', b_description = ''Charged twice in May'',
                 b_category = Some i, b_subCategory = Some j, b_priority = None,
                 b_files = []\<rparr>"

text \<open>
  The taxonomy the examples start from: category Billing (id 10) with subcategory Refund
  (id 11), category Shipping (id 20) with subcategory Delay (id 21), no complaints.
\<close>

definition bootstrap :: "(Env \<times> User \<times> Request) list" where
  "bootstrap = [(env_at 1 10, admin, CreateCategory billing),
                (env_at 2 11, admin, AddSubCategory 10 refund),
                (env_at 3 20, admin, CreateCategory shipping),
                (env_at 4 21, admin, AddSubCategory 20 delay)]"

definition taxonomy :: db where
  "taxonomy =
     \<lparr>complaints = [],
      categories =
        [\<lparr>cat_id = 10, cat_name = ''Billing'', cat_icon = ''data:image/png;base64,AA'',
          cat_description = ''Billing issues'',
          subCategories =
            [\<lparr>sub_id = 11, sub_name = ''Refund'', sub_icon = ''data:image/png;base64,AA'',
              sub_description = ''Refund requests'', sub_totalComplaints = 0,
              sub_createdAt = 2, sub_updatedAt = 2\<rparr>],
          cat_totalComplaints = 0, userCounts = [], cat_createdAt = 1, cat_updatedAt = 2\<rparr>,
         \<lparr>cat_id = 20, cat_name = ''Shipping'', cat_icon = ''data:image/png;base64,AA'',
          cat_description = ''Shipping issues'',
          subCategories =
            [\<lparr>sub_id = 21, sub_name = ''Delay'', sub_icon = ''data:image/png;base64,AA'',
              sub_description = ''Late deliveries'', sub_totalComplaints = 0,
              sub_createdAt = 4, sub_updatedAt = 4\<rparr>],
          cat_totalComplaints = 0, userCounts = [], cat_createdAt = 3, cat_updatedAt = 4\<rparr>]\<rparr>"

text \<open>
  Alice files complaint 12 under (Billing, Refund); an admin then rejects it, or
  resolves it.
\<close>

definition filed :: db where
  "filed = run [(env_at 5 12, alice, CreateComplaint (filing 10 11))] taxonomy"

definition rejected_db :: db where
  "rejected_db = run [(env_at 6 13, admin, PatchStatus 12 ''rejected'' None)] filed"

definition resolved_db :: db where
  "resolved_db = run [(env_at 6 13, admin, PatchStatus 12 ''resolved'' (Some ''Refunded''))] filed"

text \<open>
  Alice sets the status of her complaint 12 to a string outside the enum, with the
  update route.
\<close>

definition bogus_db :: db where
  "bogus_db = run [(env_at 6 13, alice, UpdateComplaint 12 [Set_status ''bogus''])] filed"

text \<open>Bob files a second complaint, 13, under the same pair.\<close>

definition two_filed :: db where
  "two_filed = run [(env_at 6 13, bob, CreateComplaint (filing 10 11))] filed"

section \<open>The paths a request body names\<close>

fun path :: "Field \<Rightarrow> string" where
  "path (Set_title _) = ''title''"
| "path (Set_description _) = ''description''"
| "path (Set_category _) = ''category''"
| "path (Set_priority _) = ''priority''"
| "path (Set_subCategory _) = ''subCategory''"
| "path (Set_status _) = ''status''"
| "path (Set_priorityValue _) = ''priorityValue''"
| "path (Set_user _) = ''user''"
| "path (Set_attachments _) = ''attachments''"
| "path (Set_aiResponse _) = ''aiResponse''"
| "path (Set_assignedTo _) = ''assignedTo''"
| "path (Set_resolution _) = ''resolution''"
| "path (Set_comments _) = ''comments''"
| "path (Set_sharedOn _ _) = ''sharedOn''"
| "path (Set_createdAt _) = ''createdAt''"
| "path (Set_updatedAt _) = ''updatedAt''"
| "path (Set_other k) = k"

text \<open>The keys that the validators of \<^verbatim>\<open>router.put('/:id')\<close> list.\<close>

fun listed :: "Field \<Rightarrow> bool" where
  "listed (Set_title _) = True"
| "listed (Set_description _) = True"
| "listed (Set_category _) = True"
| "listed (Set_priority _) = True"
| "listed _ = False"

text \<open>
  A complaint with the paths in \<open>S\<close> blanked: two complaints agree outside \<open>S\<close> when
  their images are equal.  The \<^verbatim>\<open>_id\<close> is never blanked.
\<close>

definition erase_paths :: "string set \<Rightarrow> Complaint \<Rightarrow> Complaint" where
  "erase_paths S c =
     c\<lparr>title := (if ''title'' \<in> S then [] else title c),
       description := (if ''description'' \<in> S then [] else description c),
       category := (if ''category'' \<in> S then 0 else category c),
       priority := (if ''priority'' \<in> S then [] else priority c),
       subCategory := (if ''subCategory'' \<in> S then 0 else subCategory c),
       status := (if ''status'' \<in> S then [] else status c),
       priorityValue := (if ''priorityValue'' \<in> S then 0 else priorityValue c),
       user := (if ''user'' \<in> S then 0 else user c),
       attachments := (if ''attachments'' \<in> S then [] else attachments c),
       aiResponse := (if ''aiResponse'' \<in> S then None else aiResponse c),
       assignedTo := (if ''assignedTo'' \<in> S then None else assignedTo c),
       resolution := (if ''resolution'' \<in> S then None else resolution c),
       comments := (if ''comments'' \<in> S then [] else comments c),
       sharedOn_email := (if ''sharedOn'' \<in> S then [] else sharedOn_email c),
       sharedOn_social := (if ''sharedOn'' \<in> S then [] else sharedOn_social c),
       createdAt := (if ''createdAt'' \<in> S then 0 else createdAt c),
       updatedAt := (if ''updatedAt'' \<in> S then 0 else updatedAt c)\<rparr>"

text \<open>The counters of a category: its total, its subcategories' counts, its user counts.\<close>

definition counters :: "Category \<Rightarrow> int \<times> int list \<times> UserCount list" where
  "counters c =
     (cat_totalComplaints c, map sub_totalComplaints (subCategories c), userCounts c)"

section \<open>Facts about the helpers\<close>

lemma update_first_length: "length (update_first P f xs) = length xs"
  by (induction xs) auto

lemma find_Some_holds: "find P xs = Some x \<Longrightarrow> P x"
  by (induction xs) (auto split: if_splits)

lemma find_Some_set: "find P xs = Some x \<Longrightarrow> x \<in> set xs"
  by (induction xs) (auto split: if_splits)

lemma find_update_first_const:
  "find P xs = Some x \<Longrightarrow> P y \<Longrightarrow> find P (update_first P (\<lambda>_. y) xs) = Some y"
  by (induction xs) (auto split: if_splits)

lemma find_weaker:
  "find P xs = Some x \<Longrightarrow> Q x \<Longrightarrow> find (\<lambda>y. P y \<and> Q y) xs = Some x"
  by (induction xs) (auto split: if_splits)

lemma find_update_first_other:
  "find P xs = Some x \<Longrightarrow> Q x \<Longrightarrow> P y \<Longrightarrow>
     find P (update_first (\<lambda>z. P z \<and> Q z) (\<lambda>_. y) xs) = Some y"
  by (induction xs) (auto split: if_splits)

lemma map_update_first_found:
  "find Q xs = Some x \<Longrightarrow> g y = g x \<Longrightarrow> map g (update_first Q (\<lambda>_. y) xs) = map g xs"
  by (induction xs) (auto split: if_splits)

lemma update_first_idem:
  "P y \<Longrightarrow> update_first P (\<lambda>_. y) (update_first P (\<lambda>_. y) xs) = update_first P (\<lambda>_. y) xs"
  by (induction xs) auto

lemma list_all_update_first_const:
  "list_all P xs \<Longrightarrow> P y \<Longrightarrow> list_all P (update_first Q (\<lambda>_. y) xs)"
  by (induction xs) auto

lemma list_all_update_first:
  "list_all P xs \<Longrightarrow> (\<And>x. P x \<Longrightarrow> P (f x)) \<Longrightarrow> list_all P (update_first Q f xs)"
  by (induction xs) auto

lemma map_update_first_same:
  "(\<And>x. g (f x) = g x) \<Longrightarrow> map g (update_first Q f xs) = map g xs"
  by (induction xs) auto

lemma list_all_remove_first: "list_all P xs \<Longrightarrow> list_all P (remove_first Q xs)"
  by (induction xs) auto

lemma distinct_find_unique:
  "distinct (map g xs) \<Longrightarrow> find (\<lambda>s. g s = j) xs = Some s \<Longrightarrow> s' \<in> set xs \<Longrightarrow> g s' = j \<Longrightarrow> s' = s"
  by (induction xs) (auto split: if_splits dest: find_Some_set)

lemma sum_filter_zero:
  "(\<And>s. s \<in> set xs \<Longrightarrow> \<not> P s \<Longrightarrow> f s = (0::int)) \<Longrightarrow> sum_list (map f (filter P xs)) = sum_list (map f xs)"
  by (induction xs) auto

lemma find_update_first_apply:
  "find P xs = Some x \<Longrightarrow> P (f x) \<Longrightarrow> find P (update_first P f xs) = Some (f x)"
  by (induction xs) (auto split: if_splits)

lemma find_map_keep:
  "(\<And>x. P (f x) = P x) \<Longrightarrow> find P (map f xs) = map_option f (find P xs)"
  by (induction xs) auto

lemma find_append_new:
  "find P xs = None \<Longrightarrow> P y \<Longrightarrow> find P (xs @ [y]) = Some y"
  by (induction xs) (auto split: if_splits)




section \<open>Facts about the hooks\<close>

lemma save_Category_complaints: "complaints (save_Category t c d) = complaints d"
  by (simp add: save_Category_def)

lemma post_save_hook_complaints:
  "post_save_hook p t this d = Some d' \<Longrightarrow> complaints d' = complaints d"
  by (auto simp: post_save_hook_def Let_def save_Category_complaints
      split: option.splits if_splits)

lemma post_save_complaints: "complaints (post_save t this d) = complaints d"
  by (auto simp: post_save_def split: option.splits dest: post_save_hook_complaints)


lemma pre_save_priorityValue:
  "priorityValue (pre_save t c) =
     (if priority c = ''low'' then 0 else if priority c = ''high'' then 2 else 1)"
  by (simp add: pre_save_def)


lemma save_existing_invalid:
  "\<not> validate_Complaint c \<Longrightarrow> save_existing p t c d = (None, d)"
  by (simp add: save_existing_def)


text \<open>The counters of a category have no validators.\<close>

lemma validate_SubCategory_count:
  "validate_SubCategory (s\<lparr>sub_totalComplaints := n\<rparr>) = validate_SubCategory s"
  by (simp add: validate_SubCategory_def)

lemma validate_Category_counters:
  "validate_Category
     (calculateTotalComplaints
        (c\<lparr>subCategories :=
             update_first Q (\<lambda>s. s\<lparr>sub_totalComplaints := n\<rparr>) (subCategories c),
           userCounts := ucs\<rparr>))
   = validate_Category c"
proof -
  have "list_all validate_SubCategory
          (update_first Q (\<lambda>s. s\<lparr>sub_totalComplaints := n\<rparr>) xs)
        = list_all validate_SubCategory xs" for xs
    by (induction xs) (auto simp: validate_SubCategory_count)
  moreover have "update_first Q f xs = [] \<longleftrightarrow> xs = []" for f and xs :: "SubCategory list"
    by (cases xs) auto
  ultimately show ?thesis
    by (auto simp: validate_Category_def calculateTotalComplaints_def)
qed



lemma foldl_sum_totals:
  "foldl (\<lambda>sum sub. sum + sub_totalComplaints sub) a xs = a + sum_list (map sub_totalComplaints xs)"
  by (induction xs arbitrary: a) auto

lemma calculateTotalComplaints_sum:
  "subCategories c \<noteq> [] \<Longrightarrow> total_is_sum (calculateTotalComplaints c)"
  by (simp add: calculateTotalComplaints_def total_is_sum_def foldl_sum_totals)

lemma calculateTotalComplaints_subs:
  "subCategories (calculateTotalComplaints c) = subCategories c"
  by (simp add: calculateTotalComplaints_def)

lemma countDocuments_nonneg: "0 \<le> countDocuments q d"
  by (simp add: countDocuments_def)

section \<open>The concrete states\<close>

lemmas fixtures = env_at_def env_mail_down_def admin_def alice_def bob_def billing_def refund_def
  shipping_def delay_def filing_def bootstrap_def taxonomy_def filed_def rejected_db_def
  resolved_db_def bogus_db_def

lemmas route_defs = adminAuth_def createCategory_def validateCategory_def first_error_def
  joi_string_def joi_icon_def trim_def is_space_def icon_pattern_def startsWith_def
  is_alpha_plus_def validate_Category_def pre_save_Category_def addSubCategory_def
  validateSubCategory_def validate_SubCategory_def save_Category_def create_complaint_def
  save_new_def save_existing_def validate_Complaint_def status_enum_def priority_enum_def
  pre_save_def post_save_hook_def post_save_def countDocuments_def
  calculateTotalComplaints_def update_complaint_def delete_complaint_def patch_status_def
  share_email_def share_social_def add_comment_def deleteCategory_def deleteSubCategory_def
  toggleFrequentStatus_def toggle_document_def hydrate_def truthy_def Let_def

lemma setup_taxonomy: "run bootstrap \<lparr>complaints = [], categories = []\<rparr> = taxonomy"
  by (simp add: fixtures route_defs)

lemma setup_fresh: "fresh_run bootstrap \<lparr>complaints = [], categories = []\<rparr>"
  by (simp add: fixtures route_defs fresh_id_def)

lemma rejected_db_complaint:
  "find (\<lambda>x. cid x = 12) (complaints rejected_db) = Some (hd (complaints rejected_db))"
  "user (hd (complaints rejected_db)) = u_id alice"
  "map status (complaints rejected_db) = [''rejected'']"
  "title (hd (complaints rejected_db)) = ''Wrong charge''"
  by (simp_all add: fixtures route_defs)

lemma reachable_run: "reachable d \<Longrightarrow> fresh_run rs d \<Longrightarrow> reachable (run rs d)"
proof (induction rs arbitrary: d)
  case Nil
  then show ?case by simp
next
  case (Cons x rs)
  obtain e u r where x: "x = (e, u, r)" by (cases x)
  from Cons.prems have "reachable (snd (handle e u r d))"
    by (simp add: x reachable.step)
  with Cons.IH Cons.prems show ?case by (simp add: x)
qed

lemma taxonomy_reachable: "reachable taxonomy"
  using reachable_run [OF reachable.init setup_fresh] by (simp add: setup_taxonomy)

lemma filed_reachable: "reachable filed"
  unfolding filed_def
  by (rule reachable_run [OF taxonomy_reachable]) (simp add: fixtures fresh_id_def)



section \<open>Every stored category keeps its total equal to the sum\<close>

lemma good_meta [simp]:
  "good (c\<lparr>cat_name := n\<rparr>) = good c"
  "good (c\<lparr>cat_description := ds\<rparr>) = good c"
  "good (c\<lparr>cat_icon := ic\<rparr>) = good c"
  "good (c\<lparr>userCounts := ucs\<rparr>) = good c"
  by (simp_all add: good_def total_is_sum_def counts_nonneg_def)

lemma pre_save_Category_good: "good c \<Longrightarrow> good (pre_save_Category t c)"
  by (simp add: good_def total_is_sum_def counts_nonneg_def pre_save_Category_def
      list_all_iff o_def)

lemma save_Category_good:
  "list_all good (categories d) \<Longrightarrow> good c \<Longrightarrow> list_all good (categories (save_Category t c d))"
  by (simp add: save_Category_def list_all_update_first_const pre_save_Category_good)

lemma find_good:
  "list_all good (categories d) \<Longrightarrow> find P (categories d) = Some c \<Longrightarrow> good c"
  by (auto simp: list_all_iff dest: find_Some_set)

lemma post_save_hook_good:
  assumes "list_all good (categories d)" and "post_save_hook p t this d = Some d'"
  shows "list_all good (categories d')"
proof (cases "find (\<lambda>c. cat_id c = category this) (categories d)")
  case None
  then show ?thesis using assms by (simp add: post_save_hook_def)
next
  case (Some cat)
  have g: "good cat" using assms(1) Some by (rule find_good)
  define n where "n = countDocuments (\<lambda>x. category x = category this \<and> subCategory x = subCategory this) d"
  define subs1 where "subs1 = update_first (\<lambda>s. sub_id s = subCategory this)
                   (\<lambda>s. s\<lparr>sub_totalComplaints := n\<rparr>) (subCategories cat)"
  have nn: "list_all (\<lambda>s. 0 \<le> sub_totalComplaints s) subs1"
    unfolding subs1_def using g
    by (intro list_all_update_first) (auto simp: good_def counts_nonneg_def n_def countDocuments_nonneg)
  have ids: "map sub_id subs1 = map sub_id (subCategories cat)"
    unfolding subs1_def by (rule map_update_first_same) simp
  have e: "subs1 = [] \<longleftrightarrow> subCategories cat = []"
    unfolding subs1_def by (cases "subCategories cat") auto
  have c3: "good (calculateTotalComplaints (cat\<lparr>subCategories := subs1, userCounts := ucs\<rparr>))" for ucs
  proof (cases "subs1 = []")
    case True
    then show ?thesis using g e
      by (simp add: good_def calculateTotalComplaints_def total_is_sum_def counts_nonneg_def)
  next
    case False
    then show ?thesis using nn g ids
      by (simp add: good_def calculateTotalComplaints_sum counts_nonneg_def calculateTotalComplaints_subs)
  qed
  show ?thesis using Some assms
    by (auto simp: post_save_hook_def Let_def n_def [symmetric] subs1_def [symmetric]
        intro!: save_Category_good c3 split: option.splits if_splits)
qed

lemma post_save_good:
  "list_all good (categories d) \<Longrightarrow> list_all good (categories (post_save t this d))"
  by (auto simp: post_save_def split: option.splits dest: post_save_hook_good)

lemma post_save_hook_good_complaints:
  "list_all good (categories d) \<Longrightarrow> post_save_hook p t this (d\<lparr>complaints := xs\<rparr>) = Some d' \<Longrightarrow>
     list_all good (categories d')"
  using post_save_hook_good [of "d\<lparr>complaints := xs\<rparr>" p t this d'] by simp

lemma save_existing_good:
  "list_all good (categories d) \<Longrightarrow> list_all good (categories (snd (save_existing p t c d)))"
  by (auto simp: save_existing_def Let_def split: option.splits
      dest: post_save_hook_good_complaints)

lemma save_existing_good':
  "save_existing p t c d = (r, d') \<Longrightarrow> list_all good (categories d) \<Longrightarrow> list_all good (categories d')"
  using save_existing_good [of d p t c] by simp

lemma save_new_good:
  "list_all good (categories d) \<Longrightarrow> list_all good (categories (snd (save_new t c d)))"
  by (auto simp: save_new_def Let_def split: option.splits
      dest: post_save_hook_good_complaints)

lemma save_new_good':
  "save_new t c d = (r, d') \<Longrightarrow> list_all good (categories d) \<Longrightarrow> list_all good (categories d')"
  using save_new_good [of d t c] by simp

lemma create_complaint_good:
  "list_all good (categories d) \<Longrightarrow> list_all good (categories (snd (create_complaint env u b d)))"
  by (auto simp: create_complaint_def Let_def split: option.splits prod.splits dest: save_new_good')

lemma update_complaint_cats: "categories (snd (update_complaint env u i body d)) = categories d"
  by (simp add: update_complaint_def Let_def split: option.splits)

lemma delete_complaint_cats: "categories (snd (delete_complaint u i d)) = categories d"
  by (simp add: delete_complaint_def split: option.splits)

lemma add_comment_good:
  "list_all good (categories d) \<Longrightarrow> list_all good (categories (snd (add_comment env u i txt d)))"
  by (auto simp: add_comment_def Let_def split: option.splits prod.splits dest: save_existing_good')

lemma share_email_good:
  "list_all good (categories d) \<Longrightarrow> list_all good (categories (snd (share_email env u i em d)))"
  by (auto simp: share_email_def Let_def split: option.splits prod.splits dest: save_existing_good')

lemma share_social_good:
  "list_all good (categories d) \<Longrightarrow> list_all good (categories (snd (share_social env u i p d)))"
  by (auto simp: share_social_def Let_def split: option.splits prod.splits dest: save_existing_good')

lemma patch_status_good:
  "list_all good (categories d) \<Longrightarrow> list_all good (categories (snd (patch_status env u i st res d)))"
  by (auto simp: patch_status_def Let_def split: option.splits prod.splits dest: save_existing_good')

lemma createCategory_good:
  "list_all good (categories d) \<Longrightarrow> list_all good (categories (snd (createCategory env b d)))"
  by (auto simp: createCategory_def Let_def good_def total_is_sum_def counts_nonneg_def
      pre_save_Category_def split: option.splits)

lemma fresh_sub_id:
  assumes "fresh_id i d" "find P (categories d) = Some c"
  shows "i \<notin> set (map sub_id (subCategories c))"
proof -
  have "c \<in> set (categories d)" using assms(2) by (rule find_Some_set)
  then show ?thesis using assms(1) by (auto simp: fresh_id_def)
qed

lemma addSubCategory_good:
  assumes "list_all good (categories d)" "fresh_id (new_id env) d"
  shows "list_all good (categories (snd (addSubCategory env i b d)))"
proof (cases "find (\<lambda>c. cat_id c = i) (categories d)")
  case None
  then show ?thesis using assms by (simp add: addSubCategory_def Let_def split: option.splits)
next
  case (Some c)
  have g: "good c" using assms(1) Some by (rule find_good)
  have f: "new_id env \<notin> set (map sub_id (subCategories c))"
    using assms(2) Some by (rule fresh_sub_id)
  have "good (c\<lparr>subCategories := subCategories c @ [s\<lparr>sub_id := new_id env, sub_totalComplaints := 0\<rparr>]\<rparr>)" for s
    using g f by (simp add: good_def total_is_sum_def counts_nonneg_def)
  from this [of "\<lparr>sub_id = 0, sub_name = trim (cb_name b), sub_icon = (case cb_icon b of None \<Rightarrow> [] | Some x \<Rightarrow> x),
                          sub_description = trim (cb_description b),
                          sub_totalComplaints = 0,
                          sub_createdAt = now env, sub_updatedAt = now env\<rparr>"]
  show ?thesis using Some assms(1)
    by (simp add: addSubCategory_def Let_def save_Category_good split: option.splits)
qed

lemma updateCategory_snd:
  assumes "find (\<lambda>c. cat_id c = i) (categories d) = Some c"
  shows "snd (updateCategory env i b d) = d
       \<or> validate_Category
             (c\<lparr>cat_name := trim (cb_name b), cat_description := trim (cb_description b),
                cat_icon := (if (case cb_icon b of None \<Rightarrow> [] | Some x \<Rightarrow> x) \<noteq> []
                             then (case cb_icon b of None \<Rightarrow> [] | Some x \<Rightarrow> x)
                             else cat_icon c)\<rparr>)
         \<and> snd (updateCategory env i b d)
           = save_Category (now env)
               (c\<lparr>cat_name := trim (cb_name b), cat_description := trim (cb_description b),
                  cat_icon := (if (case cb_icon b of None \<Rightarrow> [] | Some x \<Rightarrow> x) \<noteq> []
                               then (case cb_icon b of None \<Rightarrow> [] | Some x \<Rightarrow> x)
                               else cat_icon c)\<rparr>) d"
  using assms
  by (cases "cb_icon b") (simp_all add: updateCategory_def Let_def split: option.splits)

lemma updateCategory_good:
  assumes "list_all good (categories d)"
  shows "list_all good (categories (snd (updateCategory env i b d)))"
proof (cases "find (\<lambda>c. cat_id c = i) (categories d)")
  case None
  then show ?thesis using assms by (simp add: updateCategory_def Let_def)
next
  case (Some c)
  have g: "good c" using assms(1) Some by (rule find_good)
  from updateCategory_snd [OF Some, of env b] show ?thesis
    using assms g by (auto intro!: save_Category_good)
qed

lemma good_update_first:
  assumes "good c" "\<And>s. sub_id (f s) = sub_id s" "\<And>s. sub_totalComplaints (f s) = sub_totalComplaints s"
  shows "good (c\<lparr>subCategories := update_first Q f (subCategories c)\<rparr>)"
proof -
  have "map sub_id (update_first Q f (subCategories c)) = map sub_id (subCategories c)"
    by (rule map_update_first_same) (rule assms(2))
  moreover have "map sub_totalComplaints (update_first Q f (subCategories c))
      = map sub_totalComplaints (subCategories c)"
    by (rule map_update_first_same) (rule assms(3))
  moreover have "list_all (\<lambda>s. 0 \<le> sub_totalComplaints s) (update_first Q f (subCategories c))"
    using assms(1) by (intro list_all_update_first) (simp_all add: good_def counts_nonneg_def assms(3))
  ultimately show ?thesis using assms(1)
    by (simp add: good_def total_is_sum_def counts_nonneg_def)
qed

lemma updateSubCategory_snd:
  assumes "find (\<lambda>c. cat_id c = i) (categories d) = Some c"
  shows "snd (updateSubCategory env i j b d) = d
       \<or> validate_Category
             (c\<lparr>subCategories :=
                  update_first (\<lambda>s. sub_id s = j)
                    (\<lambda>s. s\<lparr>sub_name := trim (cb_name b),
                           sub_description := trim (cb_description b),
                           sub_icon := (if (case cb_icon b of None \<Rightarrow> [] | Some x \<Rightarrow> x) \<noteq> []
                                        then (case cb_icon b of None \<Rightarrow> [] | Some x \<Rightarrow> x)
                                        else sub_icon s)\<rparr>)
                    (subCategories c)\<rparr>)
         \<and> snd (updateSubCategory env i j b d)
           = save_Category (now env)
               (c\<lparr>subCategories :=
                    update_first (\<lambda>s. sub_id s = j)
                      (\<lambda>s. s\<lparr>sub_name := trim (cb_name b),
                             sub_description := trim (cb_description b),
                             sub_icon := (if (case cb_icon b of None \<Rightarrow> [] | Some x \<Rightarrow> x) \<noteq> []
                                          then (case cb_icon b of None \<Rightarrow> [] | Some x \<Rightarrow> x)
                                          else sub_icon s)\<rparr>)
                      (subCategories c)\<rparr>) d"
  using assms
  by (cases "cb_icon b") (simp_all add: updateSubCategory_def Let_def split: option.splits)

lemma updateSubCategory_good:
  assumes "list_all good (categories d)"
  shows "list_all good (categories (snd (updateSubCategory env i j b d)))"
proof (cases "find (\<lambda>c. cat_id c = i) (categories d)")
  case None
  then show ?thesis using assms by (simp add: updateSubCategory_def Let_def)
next
  case (Some c)
  have g: "good c" using assms(1) Some by (rule find_good)
  from updateSubCategory_snd [OF Some, of env j b] show ?thesis
    using assms by (auto intro!: save_Category_good good_update_first [OF g])
qed

lemma deleteCategory_good:
  "list_all good (categories d) \<Longrightarrow> list_all good (categories (snd (deleteCategory i d)))"
  by (simp add: deleteCategory_def list_all_remove_first split: option.splits)

lemma deleteSubCategory_good:
  assumes "list_all good (categories d)"
  shows "list_all good (categories (snd (deleteSubCategory env i j d)))"
proof (cases "find (\<lambda>c. cat_id c = i) (categories d)")
  case None
  then show ?thesis using assms by (simp add: deleteSubCategory_def)
next
  case (Some c)
  have g: "good c" using assms(1) Some by (rule find_good)
  show ?thesis
  proof (cases "find (\<lambda>s. sub_id s = j) (subCategories c)")
    case None
    then show ?thesis using Some assms by (simp add: deleteSubCategory_def)
  next
    case sub: (Some s)
    show ?thesis
    proof (cases "sub_totalComplaints s > 0")
      case True
      then show ?thesis using Some sub assms by (simp add: deleteSubCategory_def)
    next
      case False
      have "s \<in> set (subCategories c)" using sub by (rule find_Some_set)
      then have "0 \<le> sub_totalComplaints s" using g by (auto simp: good_def counts_nonneg_def list_all_iff)
      then have z: "sub_totalComplaints s = 0" using False by simp
      have u: "s' = s" if "s' \<in> set (subCategories c)" "sub_id s' = j" for s'
        using g sub that by (auto simp: good_def intro: distinct_find_unique)
      have "sum_list (map sub_totalComplaints (filter (\<lambda>s. sub_id s \<noteq> j) (subCategories c)))
          = sum_list (map sub_totalComplaints (subCategories c))"
        using u z by (intro sum_filter_zero) auto
      then have "good (c\<lparr>subCategories := filter (\<lambda>s. sub_id s \<noteq> j) (subCategories c)\<rparr>)"
        using g by (simp add: good_def total_is_sum_def counts_nonneg_def list_all_iff distinct_map_filter)
      then show ?thesis using Some sub False assms
        by (simp add: deleteSubCategory_def Let_def save_Category_good)
    qed
  qed
qed

lemma toggleFrequentStatus_good:
  assumes "list_all good (categories d)"
  shows "list_all good (categories (snd (toggleFrequentStatus env i d)))"
proof (cases "find (\<lambda>c. cat_id c = i) (categories d)")
  case None
  then show ?thesis using assms by (simp add: toggleFrequentStatus_def)
next
  case (Some c)
  have g: "good c" using assms(1) Some by (rule find_good)
  then show ?thesis using Some assms
    by (simp add: toggleFrequentStatus_def Let_def toggle_document_def hydrate_def save_Category_good)
qed

lemma handle_good:
  assumes "list_all good (categories d)" "fresh_id (new_id env) d"
  shows "list_all good (categories (snd (handle env u r d)))"
proof (cases r)
  case (CreateComplaint b)
  then show ?thesis using assms by (simp add: create_complaint_good)
next
  case (UpdateComplaint i body)
  then show ?thesis using assms by (simp add: update_complaint_cats)
next
  case (DeleteComplaint i)
  then show ?thesis using assms by (simp add: delete_complaint_cats)
next
  case (AddComment i body)
  then show ?thesis using assms by (simp add: add_comment_good)
next
  case (ShareEmail i em)
  then show ?thesis using assms by (simp add: share_email_good)
next
  case (ShareSocial i p)
  then show ?thesis using assms by (simp add: share_social_good)
next
  case (PatchStatus i st res)
  then show ?thesis using assms by (simp add: patch_status_good)
next
  case (CreateCategory b)
  then show ?thesis using assms by (simp add: adminAuth_def createCategory_good)
next
  case (AddSubCategory i b)
  then show ?thesis using assms by (simp add: adminAuth_def addSubCategory_good)
next
  case (UpdateCategory i b)
  then show ?thesis using assms by (simp add: adminAuth_def updateCategory_good)
next
  case (UpdateSubCategory i j b)
  then show ?thesis using assms by (simp add: adminAuth_def updateSubCategory_good)
next
  case (DeleteCategory i)
  then show ?thesis using assms by (simp add: adminAuth_def deleteCategory_good)
next
  case (DeleteSubCategory i j)
  then show ?thesis using assms by (simp add: adminAuth_def deleteSubCategory_good)
next
  case (ToggleFrequentStatus i)
  then show ?thesis using assms by (simp add: toggleFrequentStatus_good)
qed

lemma reachable_good: "reachable d \<Longrightarrow> list_all good (categories d)"
  by (induction rule: reachable.induct) (simp_all add: handle_good)

section \<open>Stored categories pass their validators\<close>

text \<open>
  Every route that writes a category validates it first, so in every state the server
  reaches the stored categories pass their validators, and the post-save hook of a
  complaint does not fail there.
\<close>

lemma pre_save_Category_valid:
  "validate_Category (pre_save_Category t c) = validate_Category c"
  by (simp add: validate_Category_def pre_save_Category_def validate_SubCategory_def
      list_all_iff)



















section \<open>Complaint ids stay distinct\<close>

text \<open>The unique index on \<^verbatim>\<open>_id\<close>, and no route rewrites it.\<close>

lemma apply_set_cid: "cid (apply_set f c) = cid c"
  by (cases f) simp_all

lemma fold_apply_set_cid: "cid (fold apply_set fs c) = cid c"
  by (induction fs arbitrary: c) (simp_all add: apply_set_cid)
















section \<open>Stored complaints keep their required paths valid\<close>



















section \<open>What the post-save hook stores\<close>

text \<open>
  When the complaint's category is stored and passes its validators, the hook leaves it
  with the recounted subcategory (if the category has it) and with either a pushed user
  entry of count 1 or a recounted one.
\<close>

lemma post_save_category:
  assumes "find (\<lambda>c. cat_id c = category this) (categories d) = Some k"
    and "validate_Category k"
  shows "\<exists>ucs. find (\<lambda>c. cat_id c = category this) (categories (post_save t this d))
    = Some (pre_save_Category t (calculateTotalComplaints
        (k\<lparr>subCategories :=
             update_first (\<lambda>s. sub_id s = subCategory this)
               (\<lambda>s. s\<lparr>sub_totalComplaints := pair_count (category this) (subCategory this) d\<rparr>)
               (subCategories k),
           userCounts := ucs\<rparr>)))
    \<and> ucs = (case find (\<lambda>uc. uc_user uc = user this) (userCounts k) of
         None \<Rightarrow> userCounts k @ [\<lparr>uc_user = user this, uc_count = 1\<rparr>]
       | Some _ \<Rightarrow> update_first (\<lambda>uc. uc_user uc = user this)
            (\<lambda>uc. uc\<lparr>uc_count := filer_count (category this) (user this) d\<rparr>) (userCounts k))"
proof -
  have ki: "cat_id k = category this" using assms(1) by (rule find_Some_holds)
  have v: "validate_Category (calculateTotalComplaints
        (k\<lparr>subCategories :=
             update_first (\<lambda>s. sub_id s = subCategory this)
               (\<lambda>s. s\<lparr>sub_totalComplaints := n\<rparr>) (subCategories k),
           userCounts := ucs\<rparr>))" for n ucs
    using assms(2) by (simp only: validate_Category_counters)
  have id: "cat_id (calculateTotalComplaints c) = cat_id c" for c
    by (simp add: calculateTotalComplaints_def)
  show ?thesis
    using assms(1) ki
    by (cases "find (\<lambda>uc. uc_user uc = user this) (userCounts k)")
       (simp_all add: post_save_def post_save_hook_def Let_def v id save_Category_def
          pair_count_def filer_count_def find_update_first_const pre_save_Category_def)
qed

lemma post_save_sub_count:
  assumes "find (\<lambda>c. cat_id c = category this) (categories d) = Some k"
    and "validate_Category k"
    and "find (\<lambda>s. sub_id s = subCategory this) (subCategories k) = Some s"
  shows "sub_count (category this) (subCategory this) (post_save t this d)
           = Some (pair_count (category this) (subCategory this) d)"
proof -
  from post_save_category [OF assms(1,2)] obtain ucs where
    f: "find (\<lambda>c. cat_id c = category this) (categories (post_save t this d))
    = Some (pre_save_Category t (calculateTotalComplaints
        (k\<lparr>subCategories :=
             update_first (\<lambda>s. sub_id s = subCategory this)
               (\<lambda>s. s\<lparr>sub_totalComplaints := pair_count (category this) (subCategory this) d\<rparr>)
               (subCategories k),
           userCounts := ucs\<rparr>)))" by blast
  have "find (\<lambda>s. sub_id s = subCategory this)
          (update_first (\<lambda>s. sub_id s = subCategory this)
               (\<lambda>s. s\<lparr>sub_totalComplaints := pair_count (category this) (subCategory this) d\<rparr>)
               (subCategories k))
        = Some (s\<lparr>sub_totalComplaints := pair_count (category this) (subCategory this) d\<rparr>)"
    using assms(3) find_Some_holds [OF assms(3)] by (intro find_update_first_apply) simp_all
  then show ?thesis
    by (simp add: sub_count_def f pre_save_Category_def calculateTotalComplaints_subs find_map_keep)
qed

lemma post_save_user_count:
  assumes "find (\<lambda>c. cat_id c = category this) (categories d) = Some k"
    and "validate_Category k"
  shows "user_count (category this) (user this) (post_save t this d)
           = Some (case find (\<lambda>uc. uc_user uc = user this) (userCounts k) of
                     None \<Rightarrow> 1
                   | Some _ \<Rightarrow> filer_count (category this) (user this) d)"
proof -
  from post_save_category [OF assms(1,2)] obtain ucs where
    f: "find (\<lambda>c. cat_id c = category this) (categories (post_save t this d))
    = Some (pre_save_Category t (calculateTotalComplaints
        (k\<lparr>subCategories :=
             update_first (\<lambda>s. sub_id s = subCategory this)
               (\<lambda>s. s\<lparr>sub_totalComplaints := pair_count (category this) (subCategory this) d\<rparr>)
               (subCategories k),
           userCounts := ucs\<rparr>)))"
   and u: "ucs = (case find (\<lambda>uc. uc_user uc = user this) (userCounts k) of
         None \<Rightarrow> userCounts k @ [\<lparr>uc_user = user this, uc_count = 1\<rparr>]
       | Some _ \<Rightarrow> update_first (\<lambda>uc. uc_user uc = user this)
            (\<lambda>uc. uc\<lparr>uc_count := filer_count (category this) (user this) d\<rparr>) (userCounts k))"
    by blast
  have uc: "userCounts (pre_save_Category t (calculateTotalComplaints (c\<lparr>userCounts := ucs\<rparr>))) = ucs"
    for c by (simp add: pre_save_Category_def calculateTotalComplaints_def)
  show ?thesis
  proof (cases "find (\<lambda>uc. uc_user uc = user this) (userCounts k)")
    case None
    then have "find (\<lambda>uc. uc_user uc = user this) ucs = Some \<lparr>uc_user = user this, uc_count = 1\<rparr>"
      by (simp add: u find_append_new)
    then show ?thesis using None by (simp add: user_count_def f uc)
  next
    case (Some e)
    then have "find (\<lambda>uc. uc_user uc = user this) ucs
        = Some (e\<lparr>uc_count := filer_count (category this) (user this) d\<rparr>)"
      using find_Some_holds [OF Some] by (simp add: u find_update_first_apply)
    then show ?thesis using Some by (simp add: user_count_def f uc)
  qed
qed

section \<open>C1: subcategory counters and the deletion of complaints\<close>

lemma delete_complaint_categories:
  "categories (snd (delete_complaint u i d)) = categories d"
  by (simp add: delete_complaint_def split: option.splits)

text \<open>
  Claim C1 says that after any sequence of creations and deletions, each followed by its
  reconciliation, a subcategory's \<^verbatim>\<open>totalComplaints\<close> is the number of stored complaints
  of its (category, subCategory) pair, also after a filer deletes their own complaint.
  The save hook recounts (\<open>post_save_sub_count\<close>); the deletion route runs no hook and
  writes no category (\<open>delete_complaint_categories\<close>).  Alice
  files complaint 12 under (Billing, Refund): the counter is 1 and one complaint is
  stored.  She deletes it: the answer is 200, no complaint is stored, and the counter is
  still 1.
\<close>

theorem C1_counter_stale_after_delete:
  "let d1 = run [(env_at 5 12, alice, CreateComplaint (filing 10 11))] taxonomy;
       del = handle (env_at 6 13) alice (DeleteComplaint 12) d1
   in sub_count 10 11 d1 = Some 1 \<and> pair_count 10 11 d1 = 1
      \<and> fst del = Res 200 (Message ''Complaint deleted successfully'')
      \<and> complaints (snd del) = []
      \<and> sub_count 10 11 (snd del) = Some 1 \<and> pair_count 10 11 (snd del) = 0"
  by (simp add: fixtures route_defs sub_count_def pair_count_def)

section \<open>C2: a category's total is the sum over its subcategories\<close>

text \<open>
  Claim C2: for every category, after any reconciliation run, \<^verbatim>\<open>totalComplaints\<close> is the
  sum of the subcategories' \<^verbatim>\<open>totalComplaints\<close>.  It holds in every state the server
  reaches from empty collections, requests being handled one at a time, and so also
  after the \<^verbatim>\<open>post('save')\<close> hook has run there for any complaint.  The guard of
  \<^verbatim>\<open>calculateTotalComplaints\<close> leaves the total of a category without subcategories
  as it is; in a reachable state that total is 0.
\<close>

theorem C2_total_is_sum_of_subcategories:
  "reachable d \<Longrightarrow>
     list_all total_is_sum (categories d)
     \<and> list_all total_is_sum (categories (post_save t this d))"
proof -
  assume r: "reachable d"
  then have g: "list_all good (categories d)" by (rule reachable_good)
  then have "list_all good (categories (post_save t this d))" by (rule post_save_good)
  with g show ?thesis by (simp add: list_all_iff good_def)
qed

theorem C2_total_is_sum_of_subcategories_witness:
  "reachable two_filed
   \<and> list_all total_is_sum (categories two_filed)
   \<and> map counters (categories two_filed)
       = [(2, [2], [\<lparr>uc_user = 2, uc_count = 1\<rparr>, \<lparr>uc_user = 3, uc_count = 1\<rparr>]), (0, [0], [])]"
proof -
  have r: "reachable two_filed"
    unfolding two_filed_def
    by (rule reachable_run [OF filed_reachable]) (simp add: fixtures route_defs fresh_id_def)
  have c: "map counters (categories two_filed)
       = [(2, [2], [\<lparr>uc_user = 2, uc_count = 1\<rparr>, \<lparr>uc_user = 3, uc_count = 1\<rparr>]), (0, [0], [])]"
    by (simp add: two_filed_def fixtures route_defs counters_def)
  show ?thesis using C2_total_is_sum_of_subcategories [OF r] r c by simp
qed

section \<open>C3: the first user-count entry\<close>

text \<open>
  Claim C3 says that an absent \<^verbatim>\<open>userCounts\<close> entry is created with the recounted
  number of the user's complaints in the category, never with 1.  The hook pushes the
  literal 1 and recounts only an entry that exists (\<open>post_save_user_count\<close>).  Alice
  files complaint 12 under Billing, moves it to (Shipping, Delay) with
  the update route (which runs no hook), and files complaint 14 under (Shipping, Delay):
  she has two complaints in Shipping, and her new entry there counts 1.
\<close>

theorem C3_first_entry_is_literal_one:
  "let d1 = run [(env_at 5 12, alice, CreateComplaint (filing 10 11)),
                 (env_at 6 13, alice, UpdateComplaint 12 [Set_category 20, Set_subCategory 21]),
                 (env_at 7 14, alice, CreateComplaint (filing 20 21))] taxonomy
   in map category (complaints d1) = [20, 20] \<and> map user (complaints d1) = [2, 2]
      \<and> filer_count 20 2 d1 = 2
      \<and> user_count 20 2 d1 = Some 1"
  by (simp add: fixtures route_defs user_count_def filer_count_def)

section \<open>C4: status changes by an admin\<close>





section \<open>C5: priorityValue after the filer's update\<close>

text \<open>
  Claim C5 says that \<^verbatim>\<open>priorityValue\<close> follows \<^verbatim>\<open>priority\<close> after every write, the
  filer's update included.  The \<^verbatim>\<open>pre('save')\<close> hook computes it
  (\<open>pre_save_priorityValue\<close>), and the update route writes without the hook.  Alice files
  complaint 12 with the default priority (medium, value 1) and sets its priority to
  high: the stored priority is high and the stored value is still 1.
\<close>

theorem C5_update_keeps_old_priorityValue:
  "let d1 = run [(env_at 5 12, alice, CreateComplaint (filing 10 11)),
                 (env_at 6 13, alice, UpdateComplaint 12 [Set_priority ''high''])] taxonomy
   in map priority (complaints d1) = [''high'']
      \<and> map priorityValue (complaints d1) = [1]"
  by (simp add: fixtures route_defs)

section \<open>C6: what the filer's update writes\<close>

lemma path_sanitize: "path (sanitize f) = path f"
  by (cases f) simp_all

lemma erase_apply_set: "path f \<in> S \<Longrightarrow> erase_paths S (apply_set f c) = erase_paths S c"
  by (cases f) (simp_all add: erase_paths_def)

lemma erase_fold_apply_set:
  "set (map path fs) \<subseteq> S \<Longrightarrow> erase_paths S (fold apply_set fs c) = erase_paths S c"
  by (induction fs arbitrary: c) (simp_all add: erase_apply_set)

lemma listed_path:
  "listed f \<Longrightarrow> path f \<in> {''title'', ''description'', ''category'', ''priority''}"
  by (cases f) simp_all

text \<open>
  A key that the body does not hold leaves its path as it was; a key that it holds, once,
  sets its path to the sanitized value.
\<close>

lemma fold_keeps_title:
  "(\<And>s. Set_title s \<notin> set body) \<Longrightarrow>
     title (fold apply_set (map sanitize body) c) = title c"
proof (induction body arbitrary: c)
  case Nil
  then show ?case by simp
next
  case (Cons f fs)
  have "title (apply_set (sanitize f) c) = title c"
    using Cons.prems by (cases f) auto
  with Cons show ?case by simp
qed

lemma fold_keeps_description:
  "(\<And>s. Set_description s \<notin> set body) \<Longrightarrow>
     description (fold apply_set (map sanitize body) c) = description c"
proof (induction body arbitrary: c)
  case Nil
  then show ?case by simp
next
  case (Cons f fs)
  have "description (apply_set (sanitize f) c) = description c"
    using Cons.prems by (cases f) auto
  with Cons show ?case by simp
qed

lemma fold_keeps_category:
  "(\<And>x. Set_category x \<notin> set body) \<Longrightarrow>
     category (fold apply_set (map sanitize body) c) = category c"
proof (induction body arbitrary: c)
  case Nil
  then show ?case by simp
next
  case (Cons f fs)
  have "category (apply_set (sanitize f) c) = category c"
    using Cons.prems by (cases f) auto
  with Cons show ?case by simp
qed

lemma fold_keeps_priority:
  "(\<And>p. Set_priority p \<notin> set body) \<Longrightarrow>
     priority (fold apply_set (map sanitize body) c) = priority c"
proof (induction body arbitrary: c)
  case Nil
  then show ?case by simp
next
  case (Cons f fs)
  have "priority (apply_set (sanitize f) c) = priority c"
    using Cons.prems by (cases f) auto
  with Cons show ?case by simp
qed

lemma path_absent:
  "path f \<notin> set (map path fs) \<Longrightarrow> g \<in> set fs \<Longrightarrow> path g \<noteq> path f"
  by (metis imageI list.set_map)

lemma fold_sets_title:
  "distinct (map path body) \<Longrightarrow> Set_title s \<in> set body \<Longrightarrow>
     title (fold apply_set (map sanitize body) c) = trim s"
proof (induction body arbitrary: c)
  case Nil
  then show ?case by simp
next
  case (Cons f fs)
  show ?case
  proof (cases "f = Set_title s")
    case True
    have "Set_title s' \<notin> set fs" for s'
      using Cons.prems(1) path_absent [of f fs "Set_title s'"] by (auto simp: True)
    then have "title (fold apply_set (map sanitize fs) (apply_set (sanitize f) c))
                 = title (apply_set (sanitize f) c)"
      by (rule fold_keeps_title)
    then show ?thesis by (simp add: True)
  next
    case False
    with Cons show ?thesis by simp
  qed
qed

lemma fold_sets_description:
  "distinct (map path body) \<Longrightarrow> Set_description s \<in> set body \<Longrightarrow>
     description (fold apply_set (map sanitize body) c) = trim s"
proof (induction body arbitrary: c)
  case Nil
  then show ?case by simp
next
  case (Cons f fs)
  show ?case
  proof (cases "f = Set_description s")
    case True
    have "Set_description s' \<notin> set fs" for s'
      using Cons.prems(1) path_absent [of f fs "Set_description s'"] by (auto simp: True)
    then have "description (fold apply_set (map sanitize fs) (apply_set (sanitize f) c))
                 = description (apply_set (sanitize f) c)"
      by (rule fold_keeps_description)
    then show ?thesis by (simp add: True)
  next
    case False
    with Cons show ?thesis by simp
  qed
qed

lemma fold_sets_category:
  "distinct (map path body) \<Longrightarrow> Set_category x \<in> set body \<Longrightarrow>
     category (fold apply_set (map sanitize body) c) = x"
proof (induction body arbitrary: c)
  case Nil
  then show ?case by simp
next
  case (Cons f fs)
  show ?case
  proof (cases "f = Set_category x")
    case True
    have "Set_category x' \<notin> set fs" for x'
      using Cons.prems(1) path_absent [of f fs "Set_category x'"] by (auto simp: True)
    then have "category (fold apply_set (map sanitize fs) (apply_set (sanitize f) c))
                 = category (apply_set (sanitize f) c)"
      by (rule fold_keeps_category)
    then show ?thesis by (simp add: True)
  next
    case False
    with Cons show ?thesis by simp
  qed
qed

lemma fold_sets_priority:
  "distinct (map path body) \<Longrightarrow> Set_priority p \<in> set body \<Longrightarrow>
     priority (fold apply_set (map sanitize body) c) = p"
proof (induction body arbitrary: c)
  case Nil
  then show ?case by simp
next
  case (Cons f fs)
  show ?case
  proof (cases "f = Set_priority p")
    case True
    have "Set_priority p' \<notin> set fs" for p'
      using Cons.prems(1) path_absent [of f fs "Set_priority p'"] by (auto simp: True)
    then have "priority (fold apply_set (map sanitize fs) (apply_set (sanitize f) c))
                 = priority (apply_set (sanitize f) c)"
      by (rule fold_keeps_priority)
    then show ?thesis by (simp add: True)
  next
    case False
    with Cons show ?thesis by simp
  qed
qed

lemma erase_paths_status:
  "erase_paths S a = erase_paths S b \<Longrightarrow> ''status'' \<notin> S \<Longrightarrow> status a = status b"
  by (auto simp: erase_paths_def dest: arg_cong [where f = status])

text \<open>
  Claim C6 says that the update accepts only title, description, category and priority,
  only while the complaint is neither resolved nor rejected, and leaves every other
  field as it is.  The route reads no status: Alice changes the title of her resolved
  complaint 12, and the complaint stays resolved.
\<close>

theorem C6_resolved_complaint_rewritten_by_filer:
  "map (\<lambda>c. (cid c, user c, title c, status c)) (complaints resolved_db)
     = [(12, u_id alice, ''Wrong charge'', ''resolved'')]
   \<and> map (\<lambda>c. (cid c, user c, title c, status c))
        (complaints (snd (handle (env_at 7 14) alice
           (UpdateComplaint 12 [Set_title ''Still wrong'']) resolved_db)))
      = [(12, u_id alice, ''Still wrong'', ''resolved'')]"
  by (simp add: fixtures route_defs)

text \<open>
  Claim C6 as amended: for the owner of a stored complaint, whatever its status, and a
  body that holds only keys among title, description, category and priority (each at
  most once, title and description non-blank, priority one of low, medium, high), the
  update stores, for each key of the body, the value given (title and description
  trimmed), and leaves as it is each of the four that the body does not hold.  Every
  other path of the complaint is unchanged; nothing is said here of \<^verbatim>\<open>priorityValue\<close>
  and \<^verbatim>\<open>updatedAt\<close>.
\<close>

theorem C6_update_sets_listed_fields_whatever_the_status:
  assumes "find (\<lambda>x. cid x = i) (complaints d) = Some c"
    and "user c = u_id u"
    and "list_all listed body"
    and "list_all field_valid body"
    and "distinct (map path body)"
  shows "\<exists>c'. find (\<lambda>x. cid x = i) (complaints (snd (update_complaint e u i body d))) = Some c'
     \<and> (\<forall>s. Set_title s \<in> set body \<longrightarrow> title c' = trim s)
     \<and> ((\<forall>s. Set_title s \<notin> set body) \<longrightarrow> title c' = title c)
     \<and> (\<forall>s. Set_description s \<in> set body \<longrightarrow> description c' = trim s)
     \<and> ((\<forall>s. Set_description s \<notin> set body) \<longrightarrow> description c' = description c)
     \<and> (\<forall>x. Set_category x \<in> set body \<longrightarrow> category c' = x)
     \<and> ((\<forall>x. Set_category x \<notin> set body) \<longrightarrow> category c' = category c)
     \<and> (\<forall>p. Set_priority p \<in> set body \<longrightarrow> priority c' = p)
     \<and> ((\<forall>p. Set_priority p \<notin> set body) \<longrightarrow> priority c' = priority c)
     \<and> erase_paths {''title'', ''description'', ''category'', ''priority'',
                      ''priorityValue'', ''updatedAt''} c'
       = erase_paths {''title'', ''description'', ''category'', ''priority'',
                      ''priorityValue'', ''updatedAt''} c"
proof -
  define c' where "c' = fold apply_set (map sanitize body) c"
  have ci: "cid c = i" using assms(1) by (rule find_Some_holds)
  have own: "find (\<lambda>x. cid x = i \<and> user x = u_id u) (complaints d) = Some c"
    using assms(1,2) by (rule find_weaker)
  have ci': "cid c' = i" by (simp add: c'_def fold_apply_set_cid ci)
  have upd: "snd (update_complaint e u i body d) =
       d\<lparr>complaints := update_first (\<lambda>x. cid x = i \<and> user x = u_id u) (\<lambda>_. c') (complaints d)\<rparr>"
    using assms(4) own by (simp add: update_complaint_def Let_def c'_def)
  have "find (\<lambda>x. cid x = i)
          (update_first (\<lambda>x. cid x = i \<and> user x = u_id u) (\<lambda>_. c') (complaints d)) = Some c'"
    using assms(1,2) ci' by (rule find_update_first_other)
  then have f: "find (\<lambda>x. cid x = i) (complaints (snd (update_complaint e u i body d))) = Some c'"
    by (simp add: upd)
  have p: "set (map path (map sanitize body))
             \<subseteq> {''title'', ''description'', ''category'', ''priority'',
                 ''priorityValue'', ''updatedAt''}"
    using assms(3) listed_path by (auto simp: list_all_iff path_sanitize)
  have fr: "erase_paths {''title'', ''description'', ''category'', ''priority'',
                      ''priorityValue'', ''updatedAt''} c'
       = erase_paths {''title'', ''description'', ''category'', ''priority'',
                      ''priorityValue'', ''updatedAt''} c"
    unfolding c'_def using p by (rule erase_fold_apply_set)
  have t: "\<forall>s. Set_title s \<in> set body \<longrightarrow> title c' = trim s"
    "(\<forall>s. Set_title s \<notin> set body) \<longrightarrow> title c' = title c"
    unfolding c'_def using assms(5) by (simp_all add: fold_sets_title fold_keeps_title)
  have ds: "\<forall>s. Set_description s \<in> set body \<longrightarrow> description c' = trim s"
    "(\<forall>s. Set_description s \<notin> set body) \<longrightarrow> description c' = description c"
    unfolding c'_def using assms(5) by (simp_all add: fold_sets_description fold_keeps_description)
  have ca: "\<forall>x. Set_category x \<in> set body \<longrightarrow> category c' = x"
    "(\<forall>x. Set_category x \<notin> set body) \<longrightarrow> category c' = category c"
    unfolding c'_def using assms(5) by (simp_all add: fold_sets_category fold_keeps_category)
  have pr: "\<forall>p. Set_priority p \<in> set body \<longrightarrow> priority c' = p"
    "(\<forall>p. Set_priority p \<notin> set body) \<longrightarrow> priority c' = priority c"
    unfolding c'_def using assms(5) by (simp_all add: fold_sets_priority fold_keeps_priority)
  from f t ds ca pr fr show ?thesis by blast
qed

theorem C6_update_sets_listed_fields_whatever_the_status_witness:
  "map (\<lambda>c. (title c, description c, priority c, status c)) (complaints rejected_db)
     = [(''Wrong charge'', ''Charged twice in May'', ''medium'', ''rejected'')]
   \<and> map_option (\<lambda>c. (title c, description c, priority c, status c))
        (find (\<lambda>x. cid x = 12)
           (complaints (snd (update_complaint (env_at 7 14) alice 12
              [Set_description ''  Charged three times '', Set_priority ''high'']
              rejected_db))))
      = Some (''Wrong charge'', ''Charged three times'', ''high'', ''rejected'')"
proof -
  have v: "list_all field_valid [Set_description ''  Charged three times '', Set_priority ''high'']"
    by (simp add: trim_def is_space_def priority_enum_def)
  have b: "map (\<lambda>c. (title c, description c, priority c, status c)) (complaints rejected_db)
     = [(''Wrong charge'', ''Charged twice in May'', ''medium'', ''rejected'')]"
    by (simp add: fixtures route_defs)
  have s: "status (hd (complaints rejected_db)) = ''rejected''"
    using rejected_db_complaint(3) by (cases "complaints rejected_db") simp_all
  from C6_update_sets_listed_fields_whatever_the_status
         [OF rejected_db_complaint(1) rejected_db_complaint(2) _ v, of "env_at 7 14"]
  obtain c' where
    f: "find (\<lambda>x. cid x = 12)
           (complaints (snd (update_complaint (env_at 7 14) alice 12
              [Set_description ''  Charged three times '', Set_priority ''high'']
              rejected_db))) = Some c'"
    and t: "title c' = title (hd (complaints rejected_db))"
    and ds: "description c' = trim ''  Charged three times ''"
    and pr: "priority c' = ''high''"
    and fr: "erase_paths {''title'', ''description'', ''category'', ''priority'',
                      ''priorityValue'', ''updatedAt''} c'
       = erase_paths {''title'', ''description'', ''category'', ''priority'',
                      ''priorityValue'', ''updatedAt''} (hd (complaints rejected_db))"
    by auto
  have "status c' = ''rejected''"
    using erase_paths_status [OF fr] s by simp
  with f t ds pr b rejected_db_complaint(4) show ?thesis
    by (simp add: trim_def is_space_def)
qed

section \<open>C7: a failed notification during creation\<close>

lemma create_complaint_mail_down:
  "\<not> sendMail e \<Longrightarrow> code_of (fst (create_complaint e u b d)) \<noteq> 201"
  by (simp add: create_complaint_def code_of_def Let_def split: option.splits prod.splits)

text \<open>
  Claim C7 says that a notification failure after the complaint is stored is swallowed
  and the caller receives the created complaint.  The creation e-mail is awaited in the
  handler's try block and the e-mail service rethrows: with the mail transport down,
  Alice's valid complaint 12 is stored and the answer is 500.
\<close>

theorem C7_failed_notification_answers_500:
  "let r = handle (env_mail_down 5 12) alice (CreateComplaint (filing 10 11)) taxonomy
   in fst r = Res 500 ServerError
      \<and> map cid (complaints (snd r)) = [12]
      \<and> map title (complaints (snd r)) = [''Wrong charge'']"
  by (simp add: fixtures route_defs)

section \<open>C8: deleting a category or subcategory\<close>

lemma deleteCategory_guard:
  "find (\<lambda>c. cat_id c = i) (categories d) = Some c \<Longrightarrow>
     deleteCategory i d =
       (if cat_totalComplaints c > 0
        then (Next (ApiError 400 ''Cannot delete category with existing complaints''), d)
        else (Res 204 NoBody, d\<lparr>categories := remove_first (\<lambda>c. cat_id c = i) (categories d)\<rparr>))"
  by (simp add: deleteCategory_def)

lemma deleteSubCategory_guard:
  "find (\<lambda>c. cat_id c = i) (categories d) = Some c \<Longrightarrow>
   find (\<lambda>s. sub_id s = j) (subCategories c) = Some s \<Longrightarrow>
     fst (deleteSubCategory e i j d) =
       (if sub_totalComplaints s > 0
        then Next (ApiError 400 ''Cannot delete subcategory with existing complaints'')
        else if validate_Category (c\<lparr>subCategories := filter (\<lambda>s. sub_id s \<noteq> j) (subCategories c)\<rparr>)
        then Res 204 NoBody
        else Next MongooseValidationError)"
  by (simp add: deleteSubCategory_def Let_def)

text \<open>
  Claim C8 says that the two deletions are refused while the target's counter is
  positive, and succeed once every complaint under the target has been deleted and the
  counter is back to 0.  The guards are as stated (\<open>deleteCategory_guard\<close>,
  \<open>deleteSubCategory_guard\<close>), but deleting a complaint does not lower any counter:
  with complaint 12 filed, deleting Refund is refused; after Alice deletes complaint 12
  no complaint is stored, and deleting Refund, or Billing, is still refused.
\<close>

theorem C8_delete_still_refused_after_complaints_deleted:
  "let d1 = run [(env_at 5 12, alice, CreateComplaint (filing 10 11))] taxonomy;
       d2 = run [(env_at 6 13, alice, DeleteComplaint 12)] d1
   in fst (handle (env_at 7 14) admin (DeleteSubCategory 10 11) d1)
        = Next (ApiError 400 ''Cannot delete subcategory with existing complaints'')
      \<and> complaints d2 = []
      \<and> handle (env_at 7 14) admin (DeleteSubCategory 10 11) d2
        = (Next (ApiError 400 ''Cannot delete subcategory with existing complaints''), d2)
      \<and> handle (env_at 7 14) admin (DeleteCategory 10) d2
        = (Next (ApiError 400 ''Cannot delete category with existing complaints''), d2)"
  by (simp add: fixtures route_defs)

section \<open>C9: the frequently-used toggle\<close>

lemma toggle_paths: "paths (toggle_document (hydrate c)) = c"
  by (simp add: toggle_document_def hydrate_def)

lemma toggleFrequentStatus_counters:
  "map counters (categories (snd (toggleFrequentStatus e i d))) = map counters (categories d)"
proof (cases "find (\<lambda>c. cat_id c = i) (categories d)")
  case None
  then show ?thesis by (simp add: toggleFrequentStatus_def)
next
  case (Some c)
  have ci: "cat_id c = i" using Some by (rule find_Some_holds)
  have "counters (pre_save_Category (now e) c) = counters c"
    by (simp add: counters_def pre_save_Category_def o_def)
  with Some have "map counters (update_first (\<lambda>c. cat_id c = i) (\<lambda>_. pre_save_Category (now e) c) (categories d))
      = map counters (categories d)"
    by (rule map_update_first_found)
  then show ?thesis using Some ci
    by (simp add: toggleFrequentStatus_def Let_def toggle_paths save_Category_def)
qed

lemma pre_save_Category_idem:
  "pre_save_Category t (pre_save_Category t c) = pre_save_Category t c"
  by (simp add: pre_save_Category_def o_def)

lemma pre_save_Category_id: "cat_id (pre_save_Category t c) = cat_id c"
  by (simp add: pre_save_Category_def)

lemma toggleFrequentStatus_twice:
  "toggleFrequentStatus e i (snd (toggleFrequentStatus e i d)) = toggleFrequentStatus e i d"
proof (cases "find (\<lambda>c. cat_id c = i) (categories d)")
  case None
  then show ?thesis by (simp add: toggleFrequentStatus_def)
next
  case (Some c)
  show ?thesis
  proof (cases "validate_Category c")
    case False
    then show ?thesis using Some by (simp add: toggleFrequentStatus_def Let_def toggle_paths)
  next
    case True
    have ci: "cat_id c = i" using Some by (rule find_Some_holds)
    define c' where "c' = pre_save_Category (now e) c"
    have ci': "cat_id c' = i" by (simp add: c'_def pre_save_Category_id ci)
    have v': "validate_Category c'" using True by (simp add: c'_def pre_save_Category_valid)
    have first: "toggleFrequentStatus e i d =
        (Res 200 (CategoryJson c'),
         d\<lparr>categories := update_first (\<lambda>x. cat_id x = i) (\<lambda>_. c') (categories d)\<rparr>)"
      using Some ci True
      by (simp add: toggleFrequentStatus_def Let_def toggle_paths save_Category_def c'_def)
    have f: "find (\<lambda>x. cat_id x = i) (update_first (\<lambda>x. cat_id x = i) (\<lambda>_. c') (categories d)) = Some c'"
      using Some ci' by (rule find_update_first_const)
    have idem: "pre_save_Category (now e) c' = c'"
      by (simp add: c'_def pre_save_Category_idem)
    have "toggleFrequentStatus e i
            (d\<lparr>categories := update_first (\<lambda>x. cat_id x = i) (\<lambda>_. c') (categories d)\<rparr>)
          = (Res 200 (CategoryJson c'),
             d\<lparr>categories := update_first (\<lambda>x. cat_id x = i) (\<lambda>_. c') (categories d)\<rparr>)"
      using v'
      by (simp add: toggleFrequentStatus_def f Let_def toggle_paths save_Category_def ci'
            update_first_idem idem)
    then show ?thesis by (simp add: first)
  qed
qed

text \<open>
  Claim C9 says that the toggle flips the stored flag and changes no counter.  No counter
  changes (\<open>toggleFrequentStatus_counters\<close>).  The flag is not a path of the category
  schema: on each call the document read from the collection has no such property, the
  value assigned is true, and nothing of it is stored.  A second call gives the same
  answer and the same collections as the first (\<open>toggleFrequentStatus_twice\<close>), here on
  Billing.
\<close>

theorem C9_toggle_is_not_stored:
  "let first = toggleFrequentStatus (env_at 5 12) 10 taxonomy;
       second = toggleFrequentStatus (env_at 5 12) 10 (snd first)
   in code_of (fst first) = 200 \<and> fst second = fst first \<and> snd second = snd first
      \<and> map (\<lambda>c. isFrequentlyUsed (toggle_document (hydrate c))) (categories taxonomy)
           = [Some True, Some True]
      \<and> map (\<lambda>c. isFrequentlyUsed (toggle_document (hydrate c))) (categories (snd first))
           = [Some True, Some True]"
  by (simp add: fixtures route_defs code_of_def)

section \<open>C10: who may share a complaint\<close>






end
